theory Spec2Isabelle
  imports Main "HOL-Library.Word" "HOL-Library.Monad_Syntax" "HOL-Library.Mapping"
  "HOL-Library.AList_Mapping"
begin

section \<open>The tablet of cpp/src/common/tablet.cc\<close>

text \<open>
  A shallow embedding of \<^verbatim>\<open>storage::Tablet\<close>: \<^verbatim>\<open>init\<close>, \<^verbatim>\<open>destroy\<close>,
  \<^verbatim>\<open>add_timestamp\<close> and the two overloads of \<^verbatim>\<open>add_value\<close>.

  The class manages raw memory (\<^verbatim>\<open>malloc\<close>, \<^verbatim>\<open>free\<close>, \<^verbatim>\<open>new[]\<close>, \<^verbatim>\<open>delete[]\<close>), so
  the model has an explicit heap of blocks and the pointer fields of the class hold
  addresses. A method takes the object and the heap and returns an \<open>option\<close>:
  \<open>None\<close> is undefined behaviour of the C++ program (a null or dangling pointer
  dereferenced, an array indexed outside its allocation, a block released twice), and
  \<open>Some (ret, t', h')\<close> is a normal return with the returned code, the object and
  the heap afterwards.
\<close>

subsection \<open>Declarations taken from headers\<close>

text \<open>
  Modelled from the spec: the error codes that tablet.cc returns are declared in
  \<^verbatim>\<open>utils/errno_define.h\<close>, which is not under src/. They are taken as four distinct
  results, as the error taxonomy of the spec has them.
\<close>

datatype errno = E_OK | E_INVALID_ARG | E_OUT_OF_RANGE | E_TYPE_NOT_MATCH

text \<open>
  Modelled from the spec: \<^verbatim>\<open>TSDataType\<close> and \<^verbatim>\<open>MeasurementSchema\<close> are declared in
  headers that are not under src/. A data type is one of the closed set of primitive types
  \<open>{bool, int32, int64, float32, float64, string}\<close>, and a schema entry is a name and a
  declared data type; tablet.cc reads the fields \<^verbatim>\<open>measurement_name_\<close> and
  \<^verbatim>\<open>data_type_\<close>. A field is named as in the code, without the underscore at its end.
\<close>

datatype TSDataType = BOOLEAN | INT32 | INT64 | FLOAT | DOUBLE | TEXT

record MeasurementSchema =
  measurement_name :: string
  data_type :: TSDataType

text \<open>
  The argument \<^verbatim>\<open>T val\<close> of \<^verbatim>\<open>add_value\<close>. The template is instantiated for exactly
  five types (the explicit instantiations at the end of tablet.cc). A \<^verbatim>\<open>float\<close> and a
  \<^verbatim>\<open>double\<close> are carried as their 32-bit and 64-bit patterns: the code only copies
  them into memory.
\<close>

datatype val =
    Bool bool
  | Int32 "32 word"
  | Int64 "64 word"
  | Float "32 word"
  | Double "64 word"

text \<open>
  Modelled from the spec: \<^verbatim>\<open>GetDataTypeFromTemplateType<T>()\<close> is declared in a header
  that is not under src/. It is the "runtime type of the value": the data type that the
  C++ type \<^verbatim>\<open>T\<close> stands for.
\<close>

fun GetDataTypeFromTemplateType :: "val \<Rightarrow> TSDataType" where
  "GetDataTypeFromTemplateType (Bool _) = BOOLEAN"
| "GetDataTypeFromTemplateType (Int32 _) = INT32"
| "GetDataTypeFromTemplateType (Int64 _) = INT64"
| "GetDataTypeFromTemplateType (Float _) = FLOAT"
| "GetDataTypeFromTemplateType (Double _) = DOUBLE"

text \<open>
  Modelled from the spec: \<^verbatim>\<open>ASSERT\<close>, \<^verbatim>\<open>LIKELY\<close> and \<^verbatim>\<open>UNLIKELY\<close> are macros of a
  header that is not under src/. The spec has every failure returned to the caller as a
  result value and every operation complete or return at once, so \<^verbatim>\<open>ASSERT\<close> is
  modelled as compiled out (it has no effect), and the two branch hints leave the truth
  value of their argument as it is.
\<close>

definition ASSERT :: "bool \<Rightarrow> unit option" where
  "ASSERT c = Some ()"

definition LIKELY :: "bool \<Rightarrow> bool" where
  "LIKELY c = c"

definition UNLIKELY :: "bool \<Rightarrow> bool" where
  "UNLIKELY c = c"

text \<open>
  Modelled from the spec: class \<^verbatim>\<open>BitMap\<close> is declared in a header that is not under
  src/. It is the "bit-vector of length capacity marking which rows currently hold a
  value": a default-constructed bitmap has no bits, \<^verbatim>\<open>init(size, init_as_zero)\<close> gives it
  \<open>size\<close> bits, all clear when \<open>init_as_zero\<close> holds, \<^verbatim>\<open>set(i)\<close> sets bit \<open>i\<close>, and
  \<^verbatim>\<open>test(i)\<close> reads it. An index outside the bit-vector is outside its storage.
\<close>

type_synonym BitMap = "bool list"

definition BitMap_new :: BitMap where
  "BitMap_new = []"

definition BitMap_init :: "nat \<Rightarrow> bool \<Rightarrow> BitMap" where
  "BitMap_init sz init_as_zero = replicate sz (\<not> init_as_zero)"

definition BitMap_set :: "BitMap \<Rightarrow> nat \<Rightarrow> BitMap option" where
  "BitMap_set bm i = (if i < length bm then Some (bm[i := True]) else None)"

definition BitMap_test :: "BitMap \<Rightarrow> nat \<Rightarrow> bool option" where
  "BitMap_test bm i = (if i < length bm then Some (bm ! i) else None)"

subsection \<open>The heap\<close>

text \<open>
  An address is an index into the list of all blocks ever allocated; a released block
  is \<open>None\<close>, and its address is never handed out again, so a pointer to it stays
  dangling. A block is an array; a cell of a \<^verbatim>\<open>malloc\<close>ed array that was never written
  is indeterminate (\<open>None\<close>, and \<open>Indeterminate\<close> in an array of pointers, where a cell
  can also hold \<^verbatim>\<open>NULL\<close>). The code never tests the pointer that \<^verbatim>\<open>malloc\<close> returns;
  an allocation of a size that fits memory is taken to succeed.

  A column is allocated as \<^verbatim>\<open>get_data_type_size(data_type_) * max_row_num_\<close> bytes and
  only ever accessed, behind the type check of \<^verbatim>\<open>add_value\<close>, as an array of the C++
  type of its declared data type: it is an array of \<^verbatim>\<open>max_row_num_\<close> cells.
\<close>

type_synonym addr = nat

datatype ptr = Indeterminate | Null | Addr addr

datatype block =
    TimeArray "64 word option list"
  | ValueArray "val option list"
  | PtrArray "ptr list"
  | BitMapArray "BitMap list"

type_synonym heap = "block option list"

definition heap_load :: "heap \<Rightarrow> addr \<Rightarrow> block option" where
  "heap_load h p = (if p < length h then h ! p else None)"

definition heap_malloc :: "heap \<Rightarrow> block \<Rightarrow> addr \<times> heap" where
  "heap_malloc h b = (length h, h @ [Some b])"

text \<open>
  \<^verbatim>\<open>malloc(sizeof(T) * n)\<close> for the \<^verbatim>\<open>int\<close> \<open>n\<close> of \<^verbatim>\<open>max_row_num_\<close>: the size is
  computed in \<^verbatim>\<open>size_t\<close>, where a negative \<open>n\<close> wraps to a size near \<open>2^64\<close>. No
  allocation of that size succeeds: \<^verbatim>\<open>malloc\<close> returns \<^verbatim>\<open>NULL\<close> (here \<open>None\<close>) and
  the heap has no new block. For \<open>0 \<le> n\<close> the block has \<open>n\<close> cells, made by \<open>mk\<close>.
\<close>

definition malloc_cells :: "heap \<Rightarrow> int \<Rightarrow> (nat \<Rightarrow> block) \<Rightarrow> addr option \<times> heap" where
  "malloc_cells h n mk =
     (if n < 0 then (None, h)
      else let (p, h') = heap_malloc h (mk (nat n)) in (Some p, h'))"

text \<open>A pointer as \<^verbatim>\<open>malloc\<close> returns it, as the value of a cell.\<close>

definition ptr_of :: "addr option \<Rightarrow> ptr" where
  "ptr_of p = (case p of None \<Rightarrow> Null | Some a \<Rightarrow> Addr a)"

definition heap_store :: "heap \<Rightarrow> addr \<Rightarrow> block \<Rightarrow> heap" where
  "heap_store h p b = h[p := Some b]"

text \<open>\<^verbatim>\<open>free(p)\<close> and \<^verbatim>\<open>delete[] p\<close> for a non-null \<open>p\<close>: undefined when \<open>p\<close> is not a live block.\<close>

definition heap_free :: "heap \<Rightarrow> addr \<Rightarrow> heap option" where
  "heap_free h p = (case heap_load h p of None \<Rightarrow> None | Some _ \<Rightarrow> Some (h[p := None]))"

text \<open>The blocks of the heap that are allocated and not released.\<close>

definition live_blocks :: "heap \<Rightarrow> addr list" where
  "live_blocks h = filter (\<lambda>p. h ! p \<noteq> None) [0..<length h]"

subsection \<open>The object\<close>

text \<open>
  The fields of \<^verbatim>\<open>Tablet\<close> that tablet.cc uses. A pointer field is \<open>None\<close> when it is
  \<^verbatim>\<open>NULL\<close>. The class is declared in tablet.h, which is not under src/; the fields
  have the types that tablet.cc uses them at. \<^verbatim>\<open>max_row_num_\<close> is the value of the integer field, and
  \<^verbatim>\<open>static_cast<uint32_t>(max_row_num_)\<close> is \<open>word_of_int\<close>. \<^verbatim>\<open>schema_map_\<close> is a
  \<^verbatim>\<open>std::map<std::string, int>\<close>; an \<^verbatim>\<open>int\<close> is held as its 32 bits, so that storing
  the \<^verbatim>\<open>size_t\<close> loop counter in it, and passing it on as a \<^verbatim>\<open>uint32_t\<close>, keep the low
  32 bits.
\<close>

record Tablet =
  max_row_num :: int
  schema_vec :: "MeasurementSchema list"
  schema_map :: "(string, 32 word) mapping"
  timestamps :: "addr option"
  value_matrix :: "addr option"
  bitmaps :: "addr option"

subsection \<open>\<^verbatim>\<open>Tablet::init\<close>\<close>

text \<open>
  The first loop, from entry \<open>c\<close> on: \<^verbatim>\<open>schema_map_.insert\<close> of the name and \<open>c\<close>. The
  result is whether every insertion took place, and the map as the loop leaves it (at the
  early return, the map with the entries before the duplicate).
\<close>

fun insert_names ::
  "MeasurementSchema list \<Rightarrow> nat \<Rightarrow> (string, 32 word) mapping \<Rightarrow>
     bool \<times> (string, 32 word) mapping" where
  "insert_names [] c m = (True, m)"
| "insert_names (s # ss) c m =
     (case Mapping.lookup m (measurement_name s) of
        Some _ \<Rightarrow> (False, m)
      | None \<Rightarrow> insert_names ss (Suc c) (Mapping.update (measurement_name s) (of_nat c) m))"

text \<open>\<^verbatim>\<open>value_matrix_[c] = p\<close>.\<close>

definition store_ptr :: "heap \<Rightarrow> addr \<Rightarrow> nat \<Rightarrow> addr option \<Rightarrow> heap option" where
  "store_ptr h vm c p =
     (case heap_load h vm of
        Some (PtrArray ps) \<Rightarrow>
          if c < length ps then Some (heap_store h vm (PtrArray (ps[c := ptr_of p]))) else None
      | _ \<Rightarrow> None)"

text \<open>
  The second loop, from entry \<open>c\<close> on: one column for each entry, allocated as
  \<^verbatim>\<open>malloc(get_data_type_size(schema.data_type_) * max_row_num_)\<close>.

  Modelled from the spec: \<^verbatim>\<open>get_data_type_size\<close> is declared in a header that is not
  under src/. It is the size of an element of the declared type, so that a column is "a
  homogeneous array of capacity elements of that column's declared type", and the size
  of the allocation wraps at a negative \<^verbatim>\<open>max_row_num_\<close> as that of the timestamps does.
\<close>

fun alloc_columns :: "MeasurementSchema list \<Rightarrow> nat \<Rightarrow> int \<Rightarrow> addr \<Rightarrow> heap \<Rightarrow> heap option" where
  "alloc_columns [] c n vm h = Some h"
| "alloc_columns (schema # ss) c n vm h =
     (let (p, h1) = malloc_cells h n (\<lambda>k. ValueArray (replicate k None)) in
      do {
        h2 \<leftarrow> store_ptr h1 vm c p;
        alloc_columns ss (Suc c) n vm h2
      })"

text \<open>\<^verbatim>\<open>bitmaps_[c].init(size, init_as_zero)\<close>.\<close>

definition init_bitmap :: "heap \<Rightarrow> addr \<Rightarrow> nat \<Rightarrow> nat \<Rightarrow> bool \<Rightarrow> heap option" where
  "init_bitmap h b c sz init_as_zero =
     (case heap_load h b of
        Some (BitMapArray bs) \<Rightarrow>
          if c < length bs
          then Some (heap_store h b (BitMapArray (bs[c := BitMap_init sz init_as_zero])))
          else None
      | _ \<Rightarrow> None)"

text \<open>The third loop, from entry \<open>c\<close> on.\<close>

fun init_bitmaps :: "MeasurementSchema list \<Rightarrow> nat \<Rightarrow> nat \<Rightarrow> addr \<Rightarrow> heap \<Rightarrow> heap option" where
  "init_bitmaps [] c n b h = Some h"
| "init_bitmaps (schema # ss) c n b h =
     do {
       h1 \<leftarrow> init_bitmap h b c n True;
       init_bitmaps ss (Suc c) n b h1
     }"

definition init :: "Tablet \<Rightarrow> heap \<Rightarrow> (errno \<times> Tablet \<times> heap) option" where
  "init t h =
     do {
       _ \<leftarrow> ASSERT (timestamps t = None);
       let (ts, h) = malloc_cells h (max_row_num t) (\<lambda>k. TimeArray (replicate k None));
       let t = t\<lparr>timestamps := ts\<rparr>;
       let schema_count = length (schema_vec t);
       let (ins_res, m) = insert_names (schema_vec t) 0 (schema_map t);
       let t = t\<lparr>schema_map := m\<rparr>;
       if \<not> ins_res then do {
         _ \<leftarrow> ASSERT False;
         Some (E_INVALID_ARG, t, h)
       } else do {
         _ \<leftarrow> ASSERT (Mapping.size (schema_map t) = schema_count);
         let (vm, h) = heap_malloc h (PtrArray (replicate schema_count Indeterminate));
         let t = t\<lparr>value_matrix := Some vm\<rparr>;
         h \<leftarrow> alloc_columns (schema_vec t) 0 (max_row_num t) vm h;
         let (b, h) = heap_malloc h (BitMapArray (replicate schema_count BitMap_new));
         let t = t\<lparr>bitmaps := Some b\<rparr>;
         h \<leftarrow> init_bitmaps (schema_vec t) 0 (nat (max_row_num t)) b h;
         Some (E_OK, t, h)
       }
     }"

subsection \<open>\<^verbatim>\<open>Tablet::destroy\<close>\<close>

text \<open>
  \<^verbatim>\<open>free(value_matrix_[c])\<close> for the entries from \<open>c\<close> on. \<^verbatim>\<open>free(NULL)\<close> does
  nothing, and \<^verbatim>\<open>free\<close> of an indeterminate pointer is undefined.
\<close>

fun free_columns :: "MeasurementSchema list \<Rightarrow> nat \<Rightarrow> addr \<Rightarrow> heap \<Rightarrow> heap option" where
  "free_columns [] c vm h = Some h"
| "free_columns (schema # ss) c vm h =
     (case heap_load h vm of
        Some (PtrArray ps) \<Rightarrow>
          if c < length ps then
            (case ps ! c of
               Indeterminate \<Rightarrow> None
             | Null \<Rightarrow> free_columns ss (Suc c) vm h
             | Addr p \<Rightarrow> do { h1 \<leftarrow> heap_free h p; free_columns ss (Suc c) vm h1 })
          else None
      | _ \<Rightarrow> None)"

definition destroy :: "Tablet \<Rightarrow> heap \<Rightarrow> (Tablet \<times> heap) option" where
  "destroy t h =
     do {
       (t, h) \<leftarrow> (case timestamps t of
                   None \<Rightarrow> Some (t, h)
                 | Some ts \<Rightarrow> do {
                     h \<leftarrow> heap_free h ts;
                     Some (t\<lparr>timestamps := None\<rparr>, h)
                   });
       (t, h) \<leftarrow> (case value_matrix t of
                   None \<Rightarrow> Some (t, h)
                 | Some vm \<Rightarrow> do {
                     h \<leftarrow> free_columns (schema_vec t) 0 vm h;
                     h \<leftarrow> heap_free h vm;
                     Some (t\<lparr>value_matrix := None\<rparr>, h)
                   });
       (case bitmaps t of
          None \<Rightarrow> Some (t, h)
        | Some b \<Rightarrow> do {
            h \<leftarrow> heap_free h b;
            Some (t, h)
          })
     }"

subsection \<open>\<^verbatim>\<open>Tablet::add_timestamp\<close>\<close>

text \<open>\<^verbatim>\<open>timestamps_[row_index] = timestamp\<close>.\<close>

definition store_timestamp :: "heap \<Rightarrow> addr option \<Rightarrow> nat \<Rightarrow> 64 word \<Rightarrow> heap option" where
  "store_timestamp h ts i x =
     (case ts of
        None \<Rightarrow> None
      | Some p \<Rightarrow>
          (case heap_load h p of
             Some (TimeArray xs) \<Rightarrow>
               if i < length xs then Some (heap_store h p (TimeArray (xs[i := Some x]))) else None
           | _ \<Rightarrow> None))"

definition add_timestamp ::
  "Tablet \<Rightarrow> heap \<Rightarrow> 32 word \<Rightarrow> 64 word \<Rightarrow> (errno \<times> Tablet \<times> heap) option" where
  "add_timestamp t h row_index timestamp =
     do {
       _ \<leftarrow> ASSERT (timestamps t \<noteq> None);
       if UNLIKELY (row_index \<ge> (word_of_int (max_row_num t) :: 32 word)) then do {
         _ \<leftarrow> ASSERT False;
         Some (E_OUT_OF_RANGE, t, h)
       } else do {
         h \<leftarrow> store_timestamp h (timestamps t) (unat row_index) timestamp;
         Some (E_OK, t, h)
       }
     }"

subsection \<open>\<^verbatim>\<open>Tablet::add_value\<close>\<close>

text \<open>
  \<^verbatim>\<open>value_matrix_[schema_index]\<close>: the address of the column, when the cell holds one.
  The pointer is read in order to store through it, which is undefined for \<^verbatim>\<open>NULL\<close> and
  for an indeterminate pointer.
\<close>

definition load_column_ptr :: "heap \<Rightarrow> addr option \<Rightarrow> nat \<Rightarrow> addr option" where
  "load_column_ptr h vm c =
     (case vm of
        None \<Rightarrow> None
      | Some a \<Rightarrow>
          (case heap_load h a of
             Some (PtrArray ps) \<Rightarrow>
               if c < length ps then (case ps ! c of Addr p \<Rightarrow> Some p | _ \<Rightarrow> None) else None
           | _ \<Rightarrow> None))"

text \<open>\<^verbatim>\<open>column_values[row_index] = val\<close>.\<close>

definition store_value :: "heap \<Rightarrow> addr \<Rightarrow> nat \<Rightarrow> val \<Rightarrow> heap option" where
  "store_value h p i v =
     (case heap_load h p of
        Some (ValueArray xs) \<Rightarrow>
          if i < length xs then Some (heap_store h p (ValueArray (xs[i := Some v]))) else None
      | _ \<Rightarrow> None)"

text \<open>\<^verbatim>\<open>bitmaps_[schema_index].set(row_index)\<close>.\<close>

definition set_bitmap :: "heap \<Rightarrow> addr option \<Rightarrow> nat \<Rightarrow> nat \<Rightarrow> heap option" where
  "set_bitmap h bp c i =
     (case bp of
        None \<Rightarrow> None
      | Some b \<Rightarrow>
          (case heap_load h b of
             Some (BitMapArray bs) \<Rightarrow>
               if c < length bs then do {
                 bm \<leftarrow> BitMap_set (bs ! c) i;
                 Some (heap_store h b (BitMapArray (bs[c := bm])))
               } else None
           | _ \<Rightarrow> None))"

text \<open>The overload with a \<^verbatim>\<open>uint32_t schema_index\<close>.\<close>

definition add_value ::
  "Tablet \<Rightarrow> heap \<Rightarrow> 32 word \<Rightarrow> 32 word \<Rightarrow> val \<Rightarrow> (errno \<times> Tablet \<times> heap) option" where
  "add_value t h row_index schema_index v =
     (if LIKELY (unat schema_index \<ge> length (schema_vec t)) then do {
        _ \<leftarrow> ASSERT False;
        Some (E_OUT_OF_RANGE, t, h)
      } else
        let schema = schema_vec t ! unat schema_index in
        if LIKELY (GetDataTypeFromTemplateType v \<noteq> data_type schema) then
          Some (E_TYPE_NOT_MATCH, t, h)
        else do {
          column_values \<leftarrow> load_column_ptr h (value_matrix t) (unat schema_index);
          h \<leftarrow> store_value h column_values (unat row_index) v;
          h \<leftarrow> set_bitmap h (bitmaps t) (unat schema_index) (unat row_index);
          Some (E_OK, t, h)
        })"

text \<open>
  The overload with a \<^verbatim>\<open>const std::string &measurement_name\<close>. The case \<open>None\<close> is
  \<^verbatim>\<open>find_iter == schema_map_.end()\<close>; otherwise the \<^verbatim>\<open>int\<close> found in the map,
  \<^verbatim>\<open>find_iter->second\<close>, is passed to the overload above as its
  \<^verbatim>\<open>uint32_t schema_index\<close>.
\<close>

definition add_value_by_name ::
  "Tablet \<Rightarrow> heap \<Rightarrow> 32 word \<Rightarrow> string \<Rightarrow> val \<Rightarrow> (errno \<times> Tablet \<times> heap) option" where
  "add_value_by_name t h row_index name v =
     (case Mapping.lookup (schema_map t) name of
        None \<Rightarrow> do {
          _ \<leftarrow> ASSERT False;
          Some (E_INVALID_ARG, t, h)
        }
      | Some second \<Rightarrow> add_value t h row_index second v)"

subsection \<open>Reading the tablet\<close>

text \<open>
  tablet.cc has no reader; the consumer of a tablet reads its arrays and bitmaps. These
  are the three reads: \<^verbatim>\<open>timestamps_[i]\<close>, \<^verbatim>\<open>((T *)value_matrix_[c])[i]\<close> and
  \<^verbatim>\<open>bitmaps_[c].test(i)\<close>. \<open>None\<close> is a read that is undefined or that yields an
  indeterminate value.
\<close>

definition timestamp_slot :: "Tablet \<Rightarrow> heap \<Rightarrow> nat \<Rightarrow> 64 word option" where
  "timestamp_slot t h i =
     (case timestamps t of
        None \<Rightarrow> None
      | Some p \<Rightarrow>
          (case heap_load h p of
             Some (TimeArray xs) \<Rightarrow> if i < length xs then xs ! i else None
           | _ \<Rightarrow> None))"

definition column_cell :: "Tablet \<Rightarrow> heap \<Rightarrow> nat \<Rightarrow> nat \<Rightarrow> val option" where
  "column_cell t h c i =
     (case load_column_ptr h (value_matrix t) c of
        None \<Rightarrow> None
      | Some p \<Rightarrow>
          (case heap_load h p of
             Some (ValueArray xs) \<Rightarrow> if i < length xs then xs ! i else None
           | _ \<Rightarrow> None))"

definition bitmap_bit :: "Tablet \<Rightarrow> heap \<Rightarrow> nat \<Rightarrow> nat \<Rightarrow> bool option" where
  "bitmap_bit t h c i =
     (case bitmaps t of
        None \<Rightarrow> None
      | Some b \<Rightarrow>
          (case heap_load h b of
             Some (BitMapArray bs) \<Rightarrow> if c < length bs then BitMap_test (bs ! c) i else None
           | _ \<Rightarrow> None))"

subsection \<open>An initialised tablet\<close>

text \<open>
  The state that a successful \<^verbatim>\<open>init\<close> establishes and that the writes keep: the
  capacity is positive and fits the \<^verbatim>\<open>uint32_t\<close> it is cast to, the name index is the
  one the first loop of \<^verbatim>\<open>init\<close> builds from the schema, and the three pointers lead to
  live arrays of the lengths that \<^verbatim>\<open>init\<close> allocates, each column an allocation of its
  own.
\<close>

definition timestamps_ok :: "Tablet \<Rightarrow> heap \<Rightarrow> bool" where
  "timestamps_ok t h =
     (case timestamps t of
        None \<Rightarrow> False
      | Some p \<Rightarrow>
          (case heap_load h p of
             Some (TimeArray xs) \<Rightarrow> length xs = nat (max_row_num t)
           | _ \<Rightarrow> False))"

definition column_ok :: "heap \<Rightarrow> nat \<Rightarrow> ptr \<Rightarrow> bool" where
  "column_ok h n p =
     (case p of
        Addr a \<Rightarrow>
          (case heap_load h a of
             Some (ValueArray xs) \<Rightarrow> length xs = n
           | _ \<Rightarrow> False)
      | _ \<Rightarrow> False)"

definition value_matrix_ok :: "Tablet \<Rightarrow> heap \<Rightarrow> bool" where
  "value_matrix_ok t h =
     (case value_matrix t of
        None \<Rightarrow> False
      | Some vm \<Rightarrow>
          (case heap_load h vm of
             Some (PtrArray ps) \<Rightarrow>
               length ps = length (schema_vec t) \<and> distinct ps \<and>
               list_all (column_ok h (nat (max_row_num t))) ps
           | _ \<Rightarrow> False))"

definition bitmaps_ok :: "Tablet \<Rightarrow> heap \<Rightarrow> bool" where
  "bitmaps_ok t h =
     (case bitmaps t of
        None \<Rightarrow> False
      | Some b \<Rightarrow>
          (case heap_load h b of
             Some (BitMapArray bs) \<Rightarrow>
               length bs = length (schema_vec t) \<and>
               list_all (\<lambda>bm. length bm = nat (max_row_num t)) bs
           | _ \<Rightarrow> False))"

definition initialized :: "Tablet \<Rightarrow> heap \<Rightarrow> bool" where
  "initialized t h \<longleftrightarrow>
     0 < max_row_num t \<and> max_row_num t < 2 ^ 32 \<and>
     insert_names (schema_vec t) 0 Mapping.empty = (True, schema_map t) \<and>
     timestamps_ok t h \<and> value_matrix_ok t h \<and> bitmaps_ok t h"

subsection \<open>The tablets of the examples\<close>

text \<open>
  Modelled from the spec: the constructor is in tablet.h, which is not under src/.
  \<^verbatim>\<open>init\<close> asserts that \<^verbatim>\<open>timestamps_\<close> is \<^verbatim>\<open>NULL\<close> and builds the name index, so a
  tablet as constructed has the three pointers \<^verbatim>\<open>NULL\<close> and the name index empty.

  The examples: the tablet with capacity 2 and the schema \<open>[{"t1", int64}]\<close> after
  \<^verbatim>\<open>init\<close> on an empty heap, and a schema that has the name \<open>"t1"\<close> twice.
\<close>

definition new_tablet :: "MeasurementSchema list \<Rightarrow> int \<Rightarrow> Tablet" where
  "new_tablet schema max_rows =
     \<lparr>max_row_num = max_rows, schema_vec = schema, schema_map = Mapping.empty,
      timestamps = None, value_matrix = None, bitmaps = None\<rparr>"

definition t1_schema :: "MeasurementSchema list" where
  "t1_schema = [\<lparr>measurement_name = ''t1'', data_type = INT64\<rparr>]"

definition t1_tablet :: Tablet where
  "t1_tablet =
     \<lparr>max_row_num = 2, schema_vec = t1_schema,
      schema_map = Mapping.update ''t1'' 0 Mapping.empty,
      timestamps = Some 0, value_matrix = Some 1, bitmaps = Some 3\<rparr>"

definition t1_heap :: heap where
  "t1_heap =
     [Some (TimeArray [None, None]), Some (PtrArray [Addr 2]),
      Some (ValueArray [None, None]), Some (BitMapArray [[False, False]])]"

definition dup_schema :: "MeasurementSchema list" where
  "dup_schema =
     [\<lparr>measurement_name = ''t1'', data_type = INT64\<rparr>,
      \<lparr>measurement_name = ''t1'', data_type = DOUBLE\<rparr>]"

text \<open>
  The scenario of the spec: capacity 2, schema \<open>[{"t1", int64}]\<close>, then
  \<open>SetTimestamp(0, 1000)\<close> and \<open>SetValue(0, "t1", 42)\<close>; and the heap these calls leave.
\<close>

definition scenario :: "(Tablet \<times> heap) option" where
  "scenario =
     do {
       (_, t, h) \<leftarrow> init (new_tablet t1_schema 2) [];
       (_, t, h) \<leftarrow> add_timestamp t h 0 1000;
       (_, t, h) \<leftarrow> add_value_by_name t h 0 ''t1'' (Int64 42);
       Some (t, h)
     }"

definition scenario_heap :: heap where
  "scenario_heap =
     [Some (TimeArray [Some 1000, None]), Some (PtrArray [Addr 2]),
      Some (ValueArray [Some (Int64 42), None]), Some (BitMapArray [[True, False]])]"

section \<open>Properties\<close>

subsection \<open>The heap\<close>

lemma heap_load_append_old: "p < length h \<Longrightarrow> heap_load (h @ xs) p = heap_load h p"
  by (simp add: heap_load_def nth_append)

lemma heap_load_update_same: "p < length h \<Longrightarrow> heap_load (h[p := x]) p = x"
  by (simp add: heap_load_def)

lemma heap_load_update_other: "p \<noteq> q \<Longrightarrow> heap_load (h[q := x]) p = heap_load h p"
  by (simp add: heap_load_def)

lemma heap_load_Some_less: "heap_load h p = Some b \<Longrightarrow> p < length h"
  by (simp add: heap_load_def split: if_splits)

subsection \<open>The loops of \<^verbatim>\<open>init\<close>\<close>

lemma malloc_cells_nonneg:
  "0 \<le> n \<Longrightarrow> malloc_cells h n mk = (Some (length h), h @ [Some (mk (nat n))])"
  by (simp add: malloc_cells_def heap_malloc_def)

lemma malloc_cells_neg: "n < 0 \<Longrightarrow> malloc_cells h n mk = (None, h)"
  by (simp add: malloc_cells_def)

lemma alloc_columns_closed:
  "heap_load h vm = Some (PtrArray ps) \<Longrightarrow> c + length ss \<le> length ps \<Longrightarrow> 0 \<le> n \<Longrightarrow>
   alloc_columns ss c n vm h =
     Some (h[vm := Some (PtrArray (take c ps @ map Addr [length h..<length h + length ss]
                                    @ drop (c + length ss) ps))]
           @ replicate (length ss) (Some (ValueArray (replicate (nat n) None))))"
proof (induction ss arbitrary: c h ps)
  case Nil
  then show ?case
    by (auto simp: heap_load_def split: if_splits) (metis list_update_id)
next
  case (Cons s ss)
  let ?B = "Some (ValueArray (replicate (nat n) None))"
  let ?h1 = "h @ [?B]"
  let ?ps2 = "ps[c := Addr (length h)]"
  let ?h2 = "?h1[vm := Some (PtrArray ?ps2)]"
  have vm: "vm < length h" using Cons.prems(1) by (rule heap_load_Some_less)
  have c: "c < length ps" using Cons.prems(2) by simp
  have st: "store_ptr ?h1 vm c (Some (length h)) = Some ?h2"
    using Cons.prems(1) vm c
    by (simp add: store_ptr_def ptr_of_def heap_load_append_old heap_store_def)
  have ld: "heap_load ?h2 vm = Some (PtrArray ?ps2)"
    using vm by (simp add: heap_load_def)
  have le: "Suc c + length ss \<le> length ?ps2" using Cons.prems(2) by simp
  note IH = Cons.IH [OF ld le Cons.prems(3)]
  have tk: "take (Suc c) ?ps2 = take c ps @ [Addr (length h)]"
    using c by (simp add: take_Suc_conv_app_nth)
  have dr: "drop (Suc c + length ss) ?ps2 = drop (Suc c + length ss) ps"
    by simp
  have up: "[length h..<Suc (length h + length ss)] = length h # [Suc (length h)..<Suc (length h + length ss)]"
    by (subst upt_rec) simp
  have "alloc_columns (s # ss) c n vm h = alloc_columns ss (Suc c) n vm ?h2"
    by (simp add: malloc_cells_nonneg [OF Cons.prems(3)] st)
  also note IH
  also have "?h2[vm := Some (PtrArray (take (Suc c) ?ps2 @ map Addr [length ?h2..<length ?h2 + length ss]
                                    @ drop (Suc c + length ss) ?ps2))]
           @ replicate (length ss) ?B
     = h[vm := Some (PtrArray (take c ps @ map Addr [length h..<length h + length (s # ss)]
                                    @ drop (c + length (s # ss)) ps))]
           @ replicate (length (s # ss)) ?B"
    using vm by (simp add: tk dr up list_update_append1 replicate_append_same del: upt_Suc)
  finally show ?case by simp
qed

lemma init_bitmaps_closed:
  "heap_load h b = Some (BitMapArray bs) \<Longrightarrow> c + length ss \<le> length bs \<Longrightarrow>
   init_bitmaps ss c n b h =
     Some (h[b := Some (BitMapArray (take c bs @ replicate (length ss) (replicate n False)
                                      @ drop (c + length ss) bs))])"
proof (induction ss arbitrary: c h bs)
  case Nil
  then show ?case
    by (auto simp: heap_load_def split: if_splits) (metis list_update_id)
next
  case (Cons s ss)
  let ?bs2 = "bs[c := replicate n False]"
  let ?h2 = "h[b := Some (BitMapArray ?bs2)]"
  have b: "b < length h" using Cons.prems(1) by (rule heap_load_Some_less)
  have c: "c < length bs" using Cons.prems(2) by simp
  have st: "init_bitmap h b c n True = Some ?h2"
    using Cons.prems(1) c by (simp add: init_bitmap_def heap_store_def BitMap_init_def)
  have ld: "heap_load ?h2 b = Some (BitMapArray ?bs2)"
    using b by (simp add: heap_load_def)
  have le: "Suc c + length ss \<le> length ?bs2" using Cons.prems(2) by simp
  note IH = Cons.IH [OF ld le]
  have tk: "take (Suc c) ?bs2 = take c bs @ [replicate n False]"
    using c by (simp add: take_Suc_conv_app_nth)
  show ?case
    by (simp add: st IH tk replicate_append_same)
qed


lemma lookup_None_iff: "Mapping.lookup m k = None \<longleftrightarrow> k \<notin> Mapping.keys m"
  by (simp add: keys_dom_lookup domIff)

lemma insert_names_fst:
  "fst (insert_names ss c m) \<longleftrightarrow>
     distinct (map measurement_name ss) \<and> set (map measurement_name ss) \<inter> Mapping.keys m = {}"
proof (induction ss arbitrary: c m)
  case Nil
  show ?case by simp
next
  case (Cons s ss)
  show ?case
  proof (cases "Mapping.lookup m (measurement_name s)")
    case None
    then have "measurement_name s \<notin> Mapping.keys m" by (simp add: lookup_None_iff)
    then show ?thesis using None by (auto simp: Cons.IH)
  next
    case (Some x)
    then have "measurement_name s \<in> Mapping.keys m"
      using lookup_None_iff [of m "measurement_name s"] by simp
    then show ?thesis using Some by auto
  qed
qed

lemma insert_names_other:
  "name \<notin> set (map measurement_name ss) \<Longrightarrow>
   Mapping.lookup (snd (insert_names ss c m)) name = Mapping.lookup m name"
proof (induction ss arbitrary: c m)
  case Nil
  show ?case by simp
next
  case (Cons s ss)
  then show ?case
    by (cases "Mapping.lookup m (measurement_name s)") (auto simp: lookup_update')
qed

lemma insert_names_nth:
  "fst (insert_names ss c m) \<Longrightarrow> i < length ss \<Longrightarrow>
   Mapping.lookup (snd (insert_names ss c m)) (measurement_name (ss ! i)) = Some (of_nat (c + i))"
proof (induction ss arbitrary: c m i)
  case Nil
  then show ?case by simp
next
  case (Cons s ss)
  from Cons.prems(1) have no: "Mapping.lookup m (measurement_name s) = None"
    by (cases "Mapping.lookup m (measurement_name s)") simp_all
  with Cons.prems(1)
  have f: "fst (insert_names ss (Suc c) (Mapping.update (measurement_name s) (of_nat c) m))"
    by simp
  show ?case
  proof (cases i)
    case 0
    from f have "measurement_name s \<notin> set (map measurement_name ss)"
      by (auto simp: insert_names_fst)
    then show ?thesis using 0 no by (simp add: insert_names_other)
  next
    case (Suc j)
    with Cons.prems(2) have "j < length ss" by simp
    from Cons.IH [OF f this] show ?thesis using Suc no by simp
  qed
qed

lemma insert_names_first_dup:
  "\<not> fst (insert_names ss c m) \<Longrightarrow>
   \<exists>k<length ss. fst (insert_names (take k ss) c m) \<and>
     snd (insert_names ss c m) = snd (insert_names (take k ss) c m) \<and>
     Mapping.lookup (snd (insert_names (take k ss) c m)) (measurement_name (ss ! k)) \<noteq> None"
proof (induction ss arbitrary: c m)
  case Nil
  then show ?case by simp
next
  case (Cons s ss)
  show ?case
  proof (cases "Mapping.lookup m (measurement_name s)")
    case (Some x)
    then have "fst (insert_names (take 0 (s # ss)) c m) \<and>
      snd (insert_names (s # ss) c m) = snd (insert_names (take 0 (s # ss)) c m) \<and>
      Mapping.lookup (snd (insert_names (take 0 (s # ss)) c m)) (measurement_name ((s # ss) ! 0)) \<noteq> None"
      by simp
    then show ?thesis by (intro exI [of _ 0]) simp
  next
    case None
    let ?m = "Mapping.update (measurement_name s) (of_nat c) m"
    from Cons.prems None have "\<not> fst (insert_names ss (Suc c) ?m)" by simp
    from Cons.IH [OF this] obtain k where k: "k < length ss"
      "fst (insert_names (take k ss) (Suc c) ?m)"
      "snd (insert_names ss (Suc c) ?m) = snd (insert_names (take k ss) (Suc c) ?m)"
      "Mapping.lookup (snd (insert_names (take k ss) (Suc c) ?m)) (measurement_name (ss ! k)) \<noteq> None"
      by blast
    then show ?thesis using None by (intro exI [of _ "Suc k"]) simp
  qed
qed

text \<open>
  The early return of \<^verbatim>\<open>init\<close>: the code returned at any capacity, and the state left
  at a capacity that is not negative.
\<close>

lemma init_dup_code:
  assumes "\<not> fst (insert_names (schema_vec t) 0 (schema_map t))"
  shows "map_option fst (init t h) = Some E_INVALID_ARG"
  using assms by (simp add: init_def ASSERT_def Let_def split_beta)

lemma init_dup:
  assumes "\<not> fst (insert_names (schema_vec t) 0 (schema_map t))" and "0 \<le> max_row_num t"
  shows "init t h =
    Some (E_INVALID_ARG,
          t\<lparr>timestamps := Some (length h),
            schema_map := snd (insert_names (schema_vec t) 0 (schema_map t))\<rparr>,
          h @ [Some (TimeArray (replicate (nat (max_row_num t)) None))])"
  using assms
  by (simp add: init_def ASSERT_def malloc_cells_nonneg Let_def split_beta)

text \<open>At a negative capacity the early return leaves \<^verbatim>\<open>timestamps_\<close> \<^verbatim>\<open>NULL\<close>.\<close>

lemma init_dup_neg:
  assumes "\<not> fst (insert_names (schema_vec t) 0 (schema_map t))" and "max_row_num t < 0"
  shows "init t h =
    Some (E_INVALID_ARG,
          t\<lparr>timestamps := None,
            schema_map := snd (insert_names (schema_vec t) 0 (schema_map t))\<rparr>,
          h)"
  using assms
  by (simp add: init_def ASSERT_def malloc_cells_neg Let_def split_beta)

lemma alloc_columns_fresh:
  assumes "0 \<le> n"
  shows "alloc_columns ss 0 n (Suc (length h))
           (h @ [T, Some (PtrArray (replicate (length ss) Indeterminate))]) =
         Some (h @ [T, Some (PtrArray (map Addr [length h + 2..<length h + 2 + length ss]))]
                 @ replicate (length ss) (Some (ValueArray (replicate (nat n) None))))"
proof -
  let ?h2 = "h @ [T, Some (PtrArray (replicate (length ss) Indeterminate))]"
  have ld: "heap_load ?h2 (Suc (length h)) = Some (PtrArray (replicate (length ss) Indeterminate))"
    by (simp add: heap_load_def nth_append)
  have "0 + length ss \<le> length (replicate (length ss) Indeterminate)" by simp
  from alloc_columns_closed [OF ld this assms] show ?thesis
    by (simp add: list_update_append nth_append)
qed

lemma init_bitmaps_fresh:
  "init_bitmaps ss 0 n (length h) (h @ [Some (BitMapArray (replicate (length ss) BitMap_new))]) =
   Some (h @ [Some (BitMapArray (replicate (length ss) (replicate n False)))])"
proof -
  let ?h2 = "h @ [Some (BitMapArray (replicate (length ss) BitMap_new))]"
  have ld: "heap_load ?h2 (length h) = Some (BitMapArray (replicate (length ss) BitMap_new))"
    by (simp add: heap_load_def)
  have "0 + length ss \<le> length (replicate (length ss) BitMap_new)" by simp
  from init_bitmaps_closed [OF ld this, of n] show ?thesis
    by simp
qed

lemma init_ok:
  assumes "fst (insert_names (schema_vec t) 0 (schema_map t))" and "0 \<le> max_row_num t"
  shows "init t h =
    Some (E_OK,
          t\<lparr>timestamps := Some (length h),
            schema_map := snd (insert_names (schema_vec t) 0 (schema_map t)),
            value_matrix := Some (length h + 1),
            bitmaps := Some (length h + 2 + length (schema_vec t))\<rparr>,
          h @ [Some (TimeArray (replicate (nat (max_row_num t)) None)),
               Some (PtrArray (map Addr [length h + 2 ..< length h + 2 + length (schema_vec t)]))]
            @ replicate (length (schema_vec t)) (Some (ValueArray (replicate (nat (max_row_num t)) None)))
            @ [Some (BitMapArray (replicate (length (schema_vec t))
                                   (replicate (nat (max_row_num t)) False)))])"
proof -
  let ?k = "length (schema_vec t)" and ?n = "nat (max_row_num t)"
  let ?T = "Some (TimeArray (replicate ?n None))"
  let ?h3 = "h @ [?T, Some (PtrArray (map Addr [length h + 2..<length h + 2 + ?k]))]
           @ replicate ?k (Some (ValueArray (replicate ?n None)))"
  note A = alloc_columns_fresh [OF assms(2), of "schema_vec t" h ?T]
  note B = init_bitmaps_fresh [of "schema_vec t" ?n ?h3]
  show ?thesis
    using assms A B
    by (simp add: init_def ASSERT_def malloc_cells_nonneg heap_malloc_def Let_def split_beta)
qed

subsection \<open>What a successful \<^verbatim>\<open>init\<close> leaves\<close>

lemma init_heap_loads:
  fixes h :: heap
  shows "heap_load (h @ [T, P] @ replicate k V @ [B]) (length h) = T"
    and "heap_load (h @ [T, P] @ replicate k V @ [B]) (length h + 1) = P"
    and "c < k \<Longrightarrow> heap_load (h @ [T, P] @ replicate k V @ [B]) (length h + 2 + c) = V"
    and "heap_load (h @ [T, P] @ replicate k V @ [B]) (length h + 2 + k) = B"
  by (simp_all add: heap_load_def nth_append)

lemma init_E_OK_iff:
  assumes "0 \<le> max_row_num t"
  shows "(\<exists>t' h'. init t h = Some (E_OK, t', h')) \<longleftrightarrow>
         fst (insert_names (schema_vec t) 0 (schema_map t))"
proof (cases "fst (insert_names (schema_vec t) 0 (schema_map t))")
  case True
  from init_ok [OF True assms, of h] True show ?thesis by simp
next
  case False
  from init_dup [OF False assms, of h] False show ?thesis by simp
qed

lemma init_initialized:
  assumes "init t h = Some (E_OK, t', h')" and "schema_map t = Mapping.empty"
    and "0 < max_row_num t" and "max_row_num t < 2 ^ 32"
  shows "initialized t' h'"
proof -
  let ?k = "length (schema_vec t)" and ?n = "nat (max_row_num t)" and ?L = "length h"
  let ?T = "Some (TimeArray (replicate ?n None))"
  let ?P = "Some (PtrArray (map Addr [?L + 2..<?L + 2 + ?k]))"
  let ?V = "Some (ValueArray (replicate ?n None))"
  let ?B = "Some (BitMapArray (replicate ?k (replicate ?n False)))"
  from assms(3) have nn: "0 \<le> max_row_num t" by simp
  from assms(1) have f: "fst (insert_names (schema_vec t) 0 (schema_map t))"
    using init_E_OK_iff [OF nn, of h] by blast
  from init_ok [OF f nn, of h] assms(1)
  have t': "t' = t\<lparr>timestamps := Some ?L,
                    schema_map := snd (insert_names (schema_vec t) 0 (schema_map t)),
                    value_matrix := Some (?L + 1), bitmaps := Some (?L + 2 + ?k)\<rparr>"
    and h': "h' = h @ [?T, ?P] @ replicate ?k ?V @ [?B]"
    by simp_all
  have 2: "heap_load h' ?L = ?T" "heap_load h' (?L + 1) = ?P" "heap_load h' (?L + 2 + ?k) = ?B"
    unfolding h' by (rule init_heap_loads)+
  have 3: "heap_load h' (?L + 2 + c) = ?V" if "c < ?k" for c
    unfolding h' using that by (rule init_heap_loads)
  have ix: "insert_names (schema_vec t') 0 Mapping.empty = (True, schema_map t')"
    using f assms(2) by (simp add: t' prod_eq_iff)
  have ts: "timestamps_ok t' h'"
    using 2 by (simp add: timestamps_ok_def t')
  have "column_ok h' ?n (Addr q)" if "q \<in> set [?L + 2..<?L + 2 + ?k]" for q
  proof -
    from that obtain c where "q = ?L + 2 + c" "c < ?k"
      by (auto simp: le_iff_add)
    with 3 show ?thesis by (simp add: column_ok_def)
  qed
  then have vm: "value_matrix_ok t' h'"
    using 2 by (simp add: value_matrix_ok_def t' list_all_iff distinct_map inj_on_def del: upt_Suc)
  have bm: "bitmaps_ok t' h'"
    using 2 by (simp add: bitmaps_ok_def t' list_all_iff)
  from ix ts vm bm assms(3,4) show ?thesis
    by (simp add: initialized_def t')
qed

subsection \<open>The example tablet\<close>

lemma init_t1: "init (new_tablet t1_schema 2) [] = Some (E_OK, t1_tablet, t1_heap)"
proof -
  have f: "fst (insert_names (schema_vec (new_tablet t1_schema 2)) 0
                  (schema_map (new_tablet t1_schema 2)))"
    by (simp add: new_tablet_def t1_schema_def)
  have n: "0 \<le> max_row_num (new_tablet t1_schema 2)"
    by (simp add: new_tablet_def)
  show ?thesis
    using init_ok [OF f n, of "[]"]
    by (simp add: new_tablet_def t1_schema_def t1_tablet_def t1_heap_def
        numeral_2_eq_2)
qed

lemma initialized_t1: "initialized t1_tablet t1_heap"
  by (simp add: initialized_def timestamps_ok_def value_matrix_ok_def bitmaps_ok_def
      column_ok_def heap_load_def t1_tablet_def t1_heap_def t1_schema_def)

subsection \<open>Facts of an initialised tablet\<close>

lemma unat_capacity:
  "0 \<le> m \<Longrightarrow> m < 2 ^ 32 \<Longrightarrow> unat (word_of_int m :: 32 word) = nat m"
  by (simp add: unsigned_of_int take_bit_int_eq_self)

lemma timestamps_okD:
  "timestamps_ok t h \<Longrightarrow>
   \<exists>p xs. timestamps t = Some p \<and> heap_load h p = Some (TimeArray xs) \<and>
     length xs = nat (max_row_num t)"
  by (auto simp: timestamps_ok_def split: option.splits block.splits)

subsection \<open>The name index\<close>

lemma name_index_present:
  assumes "insert_names (schema_vec t) 0 Mapping.empty = (True, schema_map t)"
    and "c < length (schema_vec t)"
  shows "Mapping.lookup (schema_map t) (measurement_name (schema_vec t ! c)) = Some (of_nat c)"
proof -
  from assms(1) have f: "fst (insert_names (schema_vec t) 0 Mapping.empty)"
    and s: "snd (insert_names (schema_vec t) 0 Mapping.empty) = schema_map t"
    by simp_all
  from insert_names_nth [OF f assms(2)] s show ?thesis by simp
qed

lemma name_index_absent:
  assumes "insert_names (schema_vec t) 0 Mapping.empty = (True, schema_map t)"
    and "name \<notin> set (map measurement_name (schema_vec t))"
  shows "Mapping.lookup (schema_map t) name = None"
proof -
  from assms(1) have s: "snd (insert_names (schema_vec t) 0 Mapping.empty) = schema_map t"
    by simp
  from insert_names_other [OF assms(2), of 0 Mapping.empty] s show ?thesis
    by simp
qed

lemma add_value_by_name_unknown:
  "Mapping.lookup (schema_map t) name = None \<Longrightarrow>
   add_value_by_name t h row_index name v = Some (E_INVALID_ARG, t, h)"
  by (simp add: add_value_by_name_def ASSERT_def)

lemma init_not_distinct:
  assumes "schema_map t = Mapping.empty" and "\<not> distinct (map measurement_name (schema_vec t))"
  shows "\<not> fst (insert_names (schema_vec t) 0 (schema_map t))"
  using assms by (simp add: insert_names_fst)

subsection \<open>Writes on an initialised tablet\<close>

lemma value_matrix_okD:
  assumes "value_matrix_ok t h" and "c < length (schema_vec t)"
  shows "\<exists>p xs. load_column_ptr h (value_matrix t) c = Some p \<and>
           heap_load h p = Some (ValueArray xs) \<and> length xs = nat (max_row_num t)"
proof -
  from assms(1) obtain vm ps where vm: "value_matrix t = Some vm"
    "heap_load h vm = Some (PtrArray ps)" "length ps = length (schema_vec t)"
    "list_all (column_ok h (nat (max_row_num t))) ps"
    by (auto simp: value_matrix_ok_def split: option.splits block.splits)
  from vm(3,4) assms(2) have "column_ok h (nat (max_row_num t)) (ps ! c)"
    by (simp add: list_all_length)
  then obtain p xs where "ps ! c = Addr p" "heap_load h p = Some (ValueArray xs)"
    "length xs = nat (max_row_num t)"
    by (auto simp: column_ok_def split: ptr.splits option.splits block.splits)
  with vm(1,2,3) assms(2) show ?thesis
    by (simp add: load_column_ptr_def)
qed

lemma bitmaps_okD:
  assumes "bitmaps_ok t h" and "c < length (schema_vec t)"
  shows "\<exists>b bs. bitmaps t = Some b \<and> heap_load h b = Some (BitMapArray bs) \<and>
           c < length bs \<and> length (bs ! c) = nat (max_row_num t)"
proof -
  from assms(1) obtain b bs where b: "bitmaps t = Some b"
    "heap_load h b = Some (BitMapArray bs)" "length bs = length (schema_vec t)"
    "list_all (\<lambda>bm. length bm = nat (max_row_num t)) bs"
    by (auto simp: bitmaps_ok_def split: option.splits block.splits)
  from b(3,4) assms(2) have "length (bs ! c) = nat (max_row_num t)"
    by (simp add: list_all_length)
  with b assms(2) show ?thesis by simp
qed

lemma add_value_mismatch:
  "unat schema_index < length (schema_vec t) \<Longrightarrow>
   GetDataTypeFromTemplateType v \<noteq> data_type (schema_vec t ! unat schema_index) \<Longrightarrow>
   add_value t h row_index schema_index v = Some (E_TYPE_NOT_MATCH, t, h)"
  by (simp add: add_value_def LIKELY_def)

lemma add_value_ok:
  assumes "initialized t h"
    and "unat schema_index < length (schema_vec t)"
    and "unat row_index < nat (max_row_num t)"
    and "GetDataTypeFromTemplateType v = data_type (schema_vec t ! unat schema_index)"
  shows "\<exists>p xs b bs.
           load_column_ptr h (value_matrix t) (unat schema_index) = Some p \<and>
           heap_load h p = Some (ValueArray xs) \<and> length xs = nat (max_row_num t) \<and>
           bitmaps t = Some b \<and> heap_load h b = Some (BitMapArray bs) \<and>
           unat schema_index < length bs \<and>
           length (bs ! unat schema_index) = nat (max_row_num t) \<and>
           add_value t h row_index schema_index v =
             Some (E_OK, t,
                   h[p := Some (ValueArray (xs[unat row_index := Some v])),
                     b := Some (BitMapArray
                            (bs[unat schema_index := (bs ! unat schema_index)[unat row_index := True]]))])"
proof -
  let ?c = "unat schema_index" and ?r = "unat row_index"
  from assms(1) have vm: "value_matrix_ok t h" and bm: "bitmaps_ok t h"
    by (simp_all add: initialized_def)
  from value_matrix_okD [OF vm assms(2)] obtain p xs where
    p: "load_column_ptr h (value_matrix t) ?c = Some p" "heap_load h p = Some (ValueArray xs)"
       "length xs = nat (max_row_num t)"
    by blast
  from bitmaps_okD [OF bm assms(2)] obtain b bs where
    b: "bitmaps t = Some b" "heap_load h b = Some (BitMapArray bs)" "?c < length bs"
       "length (bs ! ?c) = nat (max_row_num t)"
    by blast
  from p(2) b(2) have ne: "b \<noteq> p" by auto
  let ?h1 = "h[p := Some (ValueArray (xs[?r := Some v]))]"
  have sv: "store_value h p ?r v = Some ?h1"
    using p(2,3) assms(3) by (simp add: store_value_def heap_store_def)
  have lb: "heap_load ?h1 b = Some (BitMapArray bs)"
    using b(2) ne by (simp add: heap_load_update_other)
  have sb: "set_bitmap ?h1 (bitmaps t) ?c ?r =
              Some (?h1[b := Some (BitMapArray (bs[?c := (bs ! ?c)[?r := True]]))])"
    using b(1,3,4) lb assms(3) by (simp add: set_bitmap_def BitMap_set_def heap_store_def)
  have "add_value t h row_index schema_index v =
          Some (E_OK, t, ?h1[b := Some (BitMapArray (bs[?c := (bs ! ?c)[?r := True]]))])"
    using assms(2,4) p(1) sv sb by (simp add: add_value_def LIKELY_def)
  with p b show ?thesis by blast
qed

lemma heap_load_update:
  "heap_load h a = Some blk \<Longrightarrow>
   heap_load (h[a := x]) q = (if q = a then x else heap_load h q)"
  by (auto simp: heap_load_def split: if_splits)

lemma timestamps_ok_iff:
  "timestamps_ok t h \<longleftrightarrow>
     (\<exists>p xs. timestamps t = Some p \<and> heap_load h p = Some (TimeArray xs) \<and>
        length xs = nat (max_row_num t))"
  by (auto simp: timestamps_ok_def split: option.splits block.splits)

lemma column_ok_iff:
  "column_ok h n q \<longleftrightarrow>
     (\<exists>a xs. q = Addr a \<and> heap_load h a = Some (ValueArray xs) \<and> length xs = n)"
  by (auto simp: column_ok_def split: ptr.splits option.splits block.splits)

lemma value_matrix_ok_iff:
  "value_matrix_ok t h \<longleftrightarrow>
     (\<exists>vm ps. value_matrix t = Some vm \<and> heap_load h vm = Some (PtrArray ps) \<and>
        length ps = length (schema_vec t) \<and> distinct ps \<and>
        list_all (column_ok h (nat (max_row_num t))) ps)"
  by (auto simp: value_matrix_ok_def split: option.splits block.splits)

lemma bitmaps_ok_iff:
  "bitmaps_ok t h \<longleftrightarrow>
     (\<exists>b bs. bitmaps t = Some b \<and> heap_load h b = Some (BitMapArray bs) \<and>
        length bs = length (schema_vec t) \<and>
        list_all (\<lambda>bm. length bm = nat (max_row_num t)) bs)"
  by (auto simp: bitmaps_ok_def split: option.splits block.splits)

lemma load_column_ptr_update_value:
  "heap_load h a = Some (ValueArray xs) \<Longrightarrow>
   load_column_ptr (h[a := Some (ValueArray xs')]) vm c = load_column_ptr h vm c"
  by (cases vm) (auto simp: load_column_ptr_def heap_load_update)

lemma load_column_ptr_update_bitmap:
  "heap_load h a = Some (BitMapArray bs) \<Longrightarrow>
   load_column_ptr (h[a := Some (BitMapArray bs')]) vm c = load_column_ptr h vm c"
  by (cases vm) (auto simp: load_column_ptr_def heap_load_update)

lemma column_ok_update_value:
  "heap_load h a = Some (ValueArray xs) \<Longrightarrow> length xs' = length xs \<Longrightarrow>
   column_ok (h[a := Some (ValueArray xs')]) n = column_ok h n"
  by (rule ext)
     (auto simp: column_ok_def heap_load_update
        split: ptr.splits option.splits block.splits if_splits)

lemma column_ok_update_other:
  "heap_load h a = Some blk \<Longrightarrow> (\<forall>xs. blk \<noteq> ValueArray xs) \<Longrightarrow>
   (\<forall>xs. blk' \<noteq> ValueArray xs) \<Longrightarrow>
   column_ok (h[a := Some blk']) n = column_ok h n"
  by (rule ext)
     (auto simp: column_ok_def heap_load_update
        split: ptr.splits option.splits block.splits if_splits)

lemma timestamps_ok_update:
  assumes "timestamps_ok t h" and "heap_load h a = Some blk" and "\<forall>xs. blk \<noteq> TimeArray xs"
  shows "timestamps_ok t (h[a := x])"
proof -
  from assms(1) obtain p xs where p: "timestamps t = Some p"
    "heap_load h p = Some (TimeArray xs)" "length xs = nat (max_row_num t)"
    by (auto simp: timestamps_ok_iff)
  from p(2) assms(2,3) have "p \<noteq> a" by auto
  with p show ?thesis by (simp add: timestamps_ok_iff heap_load_update_other)
qed

lemma value_matrix_ok_update:
  assumes "value_matrix_ok t h" and "heap_load h a = Some blk" and "\<forall>ps. blk \<noteq> PtrArray ps"
    and "column_ok (h[a := x]) (nat (max_row_num t)) = column_ok h (nat (max_row_num t))"
  shows "value_matrix_ok t (h[a := x])"
proof -
  from assms(1) obtain vm ps where p: "value_matrix t = Some vm"
    "heap_load h vm = Some (PtrArray ps)" "length ps = length (schema_vec t)"
    "list_all (column_ok h (nat (max_row_num t))) ps" "distinct ps"
    by (auto simp: value_matrix_ok_iff)
  from p(2) assms(2,3) have "vm \<noteq> a" by auto
  with p assms(4) show ?thesis by (simp add: value_matrix_ok_iff heap_load_update_other)
qed

lemma bitmaps_ok_update:
  assumes "bitmaps_ok t h" and "heap_load h a = Some blk" and "\<forall>bs. blk \<noteq> BitMapArray bs"
  shows "bitmaps_ok t (h[a := x])"
proof -
  from assms(1) obtain b bs where p: "bitmaps t = Some b"
    "heap_load h b = Some (BitMapArray bs)" "length bs = length (schema_vec t)"
    "list_all (\<lambda>bm. length bm = nat (max_row_num t)) bs"
    by (auto simp: bitmaps_ok_iff)
  from p(2) assms(2,3) have "b \<noteq> a" by auto
  with p show ?thesis by (simp add: bitmaps_ok_iff heap_load_update_other)
qed

text \<open>A write into a column array keeps the tablet initialised.\<close>

lemma initialized_update_value:
  assumes "initialized t h" and "heap_load h a = Some (ValueArray xs)" and "length xs' = length xs"
  shows "initialized t (h[a := Some (ValueArray xs')])"
proof -
  from assms(1) have ok: "timestamps_ok t h" "value_matrix_ok t h" "bitmaps_ok t h"
    by (simp_all add: initialized_def)
  have "timestamps_ok t (h[a := Some (ValueArray xs')])"
    by (rule timestamps_ok_update [OF ok(1) assms(2)]) simp
  moreover have "value_matrix_ok t (h[a := Some (ValueArray xs')])"
    by (rule value_matrix_ok_update [OF ok(2) assms(2)])
       (simp_all add: column_ok_update_value [OF assms(2,3)])
  moreover have "bitmaps_ok t (h[a := Some (ValueArray xs')])"
    by (rule bitmaps_ok_update [OF ok(3) assms(2)]) simp
  ultimately show ?thesis using assms(1) by (simp add: initialized_def)
qed

text \<open>Setting a bit of a bitmap keeps the tablet initialised.\<close>

lemma initialized_update_bitmap:
  assumes "initialized t h" and "heap_load h b = Some (BitMapArray bs)"
  shows "initialized t (h[b := Some (BitMapArray (bs[c := (bs ! c)[i := True]]))])"
    (is "initialized t ?h'")
proof -
  from assms(1) have ok: "timestamps_ok t h" "value_matrix_ok t h" "bitmaps_ok t h"
    by (simp_all add: initialized_def)
  have co: "column_ok ?h' n = column_ok h n" for n
    by (rule column_ok_update_other [OF assms(2)]) simp_all
  have "timestamps_ok t ?h'"
    by (rule timestamps_ok_update [OF ok(1) assms(2)]) simp
  moreover have "value_matrix_ok t ?h'"
    by (rule value_matrix_ok_update [OF ok(2) assms(2)]) (simp_all add: co)
  moreover have "bitmaps_ok t ?h'"
  proof -
    from ok(3) obtain b' bs' where b': "bitmaps t = Some b'"
      "heap_load h b' = Some (BitMapArray bs')" "length bs' = length (schema_vec t)"
      "list_all (\<lambda>bm. length bm = nat (max_row_num t)) bs'"
      by (auto simp: bitmaps_ok_iff)
    show ?thesis
    proof (cases "b' = b")
      case True
      with b'(2) assms(2) have [simp]: "bs' = bs" by simp
      from b'(4) have "list_all (\<lambda>bm. length bm = nat (max_row_num t)) (bs[c := (bs ! c)[i := True]])"
        by (cases "c < length bs") (auto simp: list_all_length nth_list_update)
      with b' True assms(2) show ?thesis
        by (simp add: bitmaps_ok_iff heap_load_update)
    next
      case False
      with b' show ?thesis by (simp add: bitmaps_ok_iff heap_load_update_other)
    qed
  qed
  ultimately show ?thesis using assms(1) by (simp add: initialized_def)
qed

text \<open>A write into the timestamp array keeps the tablet initialised.\<close>

lemma initialized_update_time:
  assumes "initialized t h" and "heap_load h a = Some (TimeArray xs)" and "length xs' = length xs"
  shows "initialized t (h[a := Some (TimeArray xs')])" (is "initialized t ?h'")
proof -
  from assms(1) have ok: "timestamps_ok t h" "value_matrix_ok t h" "bitmaps_ok t h"
    by (simp_all add: initialized_def)
  have co: "column_ok ?h' n = column_ok h n" for n
    by (rule column_ok_update_other [OF assms(2)]) simp_all
  have "timestamps_ok t ?h'"
  proof -
    from ok(1) obtain p ys where p: "timestamps t = Some p"
      "heap_load h p = Some (TimeArray ys)" "length ys = nat (max_row_num t)"
      by (auto simp: timestamps_ok_iff)
    show ?thesis
    proof (cases "p = a")
      case True
      with p assms(2,3) show ?thesis by (simp add: timestamps_ok_iff heap_load_update)
    next
      case False
      with p show ?thesis by (simp add: timestamps_ok_iff heap_load_update_other)
    qed
  qed
  moreover have "value_matrix_ok t ?h'"
    by (rule value_matrix_ok_update [OF ok(2) assms(2)]) (simp_all add: co)
  moreover have "bitmaps_ok t ?h'"
    by (rule bitmaps_ok_update [OF ok(3) assms(2)]) simp
  ultimately show ?thesis using assms(1) by (simp add: initialized_def)
qed

lemma add_timestamp_initialized:
  assumes "initialized t h" and "add_timestamp t h row_index x = Some (e, t', h')"
  shows "initialized t' h'"
proof -
  have "t' = t \<and> (h' = h \<or> (\<exists>p xs. heap_load h p = Some (TimeArray xs) \<and>
          h' = h[p := Some (TimeArray (xs[unat row_index := Some x]))]))"
    using assms(2)
    by (auto simp: add_timestamp_def ASSERT_def UNLIKELY_def store_timestamp_def heap_store_def
        split: if_splits option.splits block.splits)
  with assms(1) show ?thesis
    by (auto intro: initialized_update_time)
qed

lemma add_value_initialized:
  assumes "initialized t h" and "add_value t h row_index schema_index v = Some (e, t', h')"
  shows "initialized t' h'"
proof -
  have "t' = t \<and> (h' = h \<or>
          (\<exists>p xs b bs. heap_load h p = Some (ValueArray xs) \<and>
             heap_load (h[p := Some (ValueArray (xs[unat row_index := Some v]))]) b =
               Some (BitMapArray bs) \<and>
             h' = h[p := Some (ValueArray (xs[unat row_index := Some v])),
                    b := Some (BitMapArray
                      (bs[unat schema_index := (bs ! unat schema_index)[unat row_index := True]]))]))"
    using assms(2)
    by (auto simp: add_value_def ASSERT_def LIKELY_def Let_def store_value_def set_bitmap_def
        BitMap_set_def heap_store_def
        split: if_splits option.splits block.splits Option.bind_splits)
  with assms(1) show ?thesis
    by (auto intro!: initialized_update_bitmap initialized_update_value)
qed

lemma add_value_reads:
  assumes "heap_load h p = Some (ValueArray xs)" and "heap_load h b = Some (BitMapArray bs)"
    and "load_column_ptr h (value_matrix t) c = Some p" and "bitmaps t = Some b"
    and "i < length xs" and "c < length bs" and "i < length (bs ! c)"
  shows "column_cell t (h[p := Some (ValueArray (xs[i := Some v])),
                         b := Some (BitMapArray (bs[c := (bs ! c)[i := True]]))]) c i = Some v"
    and "bitmap_bit t (h[p := Some (ValueArray (xs[i := Some v])),
                         b := Some (BitMapArray (bs[c := (bs ! c)[i := True]]))]) c i = Some True"
proof -
  let ?h1 = "h[p := Some (ValueArray (xs[i := Some v]))]"
  let ?h2 = "?h1[b := Some (BitMapArray (bs[c := (bs ! c)[i := True]]))]"
  from assms(1,2) have ne: "b \<noteq> p" by auto
  have lb: "heap_load ?h1 b = Some (BitMapArray bs)"
    using assms(2) ne by (simp add: heap_load_update_other)
  have lp: "heap_load ?h2 p = Some (ValueArray (xs[i := Some v]))"
    using ne assms(1) by (simp add: heap_load_update [OF lb] heap_load_update [OF assms(1)])
  have lc: "load_column_ptr ?h2 (value_matrix t) c = Some p"
    using assms(3)
    by (simp add: load_column_ptr_update_bitmap [OF lb] load_column_ptr_update_value [OF assms(1)])
  show "column_cell t ?h2 c i = Some v"
    using lc lp assms(5) by (simp add: column_cell_def)
  show "bitmap_bit t ?h2 c i = Some True"
    using assms(4,6,7) by (simp add: bitmap_bit_def heap_load_update [OF lb] BitMap_test_def)
qed

subsection \<open>Released blocks\<close>

lemma heap_free_keeps_released:
  "heap_load h a = None \<Longrightarrow> heap_free h q = Some h' \<Longrightarrow> heap_load h' a = None"
  by (auto simp: heap_free_def heap_load_def nth_list_update split: option.splits if_splits)

lemma heap_free_released:
  "heap_free h q = Some h' \<Longrightarrow> heap_load h' q = None"
  by (auto simp: heap_free_def heap_load_def split: option.splits if_splits)

lemma heap_free_again: "heap_load h q = None \<Longrightarrow> heap_free h q = None"
  by (simp add: heap_free_def)

lemma free_columns_keeps_released:
  "heap_load h a = None \<Longrightarrow> free_columns ss c vm h = Some h' \<Longrightarrow> heap_load h' a = None"
proof (induction ss arbitrary: c h)
  case Nil
  then show ?case by simp
next
  case (Cons s ss)
  from Cons.prems(2) consider
      (null) "free_columns ss (Suc c) vm h = Some h'"
    | (addr) p h1 where "heap_free h p = Some h1" "free_columns ss (Suc c) vm h1 = Some h'"
    by (auto split: option.splits block.splits if_splits ptr.splits Option.bind_splits)
  then show ?case
  proof cases
    case null
    with Cons.prems(1) show ?thesis by (rule Cons.IH)
  next
    case addr
    from heap_free_keeps_released [OF Cons.prems(1) addr(1)] have "heap_load h1 a = None" .
    then show ?thesis using addr(2) by (rule Cons.IH)
  qed
qed

lemma heap_free_live:
  "heap_load h p = Some blk \<Longrightarrow> heap_free h p = Some (h[p := None])"
  by (simp add: heap_free_def)

lemma column_ok_release_other:
  assumes "heap_load h a = Some blk" and "column_ok h n q" and "q \<noteq> Addr a"
  shows "column_ok (h[a := None]) n q"
  using assms by (auto simp: column_ok_iff heap_load_update)

lemma free_columns_ok:
  assumes "heap_load h vm = Some (PtrArray ps)" and "c + length ss \<le> length ps"
    and "distinct ps"
    and "\<forall>i. c \<le> i \<and> i < c + length ss \<longrightarrow> column_ok h n (ps ! i)"
  shows "\<exists>h'. free_columns ss c vm h = Some h' \<and>
           (\<forall>a. (\<forall>i. c \<le> i \<and> i < c + length ss \<longrightarrow> ps ! i \<noteq> Addr a) \<longrightarrow>
                heap_load h' a = heap_load h a)"
  using assms
proof (induction ss arbitrary: c h)
  case Nil
  then show ?case by simp
next
  case (Cons s ss)
  from Cons.prems(2) have c: "c < length ps" by simp
  from Cons.prems(4) have "column_ok h n (ps ! c)" by simp
  then obtain q xs where q: "ps ! c = Addr q" "heap_load h q = Some (ValueArray xs)"
    by (auto simp: column_ok_iff)
  from q(2) Cons.prems(1) have ne: "vm \<noteq> q" by auto
  let ?h1 = "h[q := None]"
  have hf: "heap_free h q = Some ?h1" using q(2) by (rule heap_free_live)
  have l1: "heap_load ?h1 vm = Some (PtrArray ps)"
    using Cons.prems(1) ne by (simp add: heap_load_update_other)
  have le: "Suc c + length ss \<le> length ps" using Cons.prems(2) by simp
  have ok1: "\<forall>i. Suc c \<le> i \<and> i < Suc c + length ss \<longrightarrow> column_ok ?h1 n (ps ! i)"
  proof (intro allI impI)
    fix i assume i: "Suc c \<le> i \<and> i < Suc c + length ss"
    with Cons.prems(2) have il: "i < length ps" by simp
    from i Cons.prems(4) have ok: "column_ok h n (ps ! i)" by simp
    from i c il Cons.prems(3) have "ps ! i \<noteq> ps ! c"
      by (simp add: nth_eq_iff_index_eq)
    with q(1) have "ps ! i \<noteq> Addr q" by simp
    with q(2) ok show "column_ok ?h1 n (ps ! i)" by (rule column_ok_release_other)
  qed
  from Cons.IH [OF l1 le Cons.prems(3) ok1] obtain h' where
    h': "free_columns ss (Suc c) vm ?h1 = Some h'"
        "\<forall>a. (\<forall>i. Suc c \<le> i \<and> i < Suc c + length ss \<longrightarrow> ps ! i \<noteq> Addr a) \<longrightarrow>
              heap_load h' a = heap_load ?h1 a"
    by blast
  have run: "free_columns (s # ss) c vm h = Some h'"
    using Cons.prems(1) c q(1) hf h'(1) by simp
  have frame: "heap_load h' a = heap_load h a"
    if a: "\<forall>i. c \<le> i \<and> i < c + length (s # ss) \<longrightarrow> ps ! i \<noteq> Addr a" for a
  proof -
    from a have "ps ! c \<noteq> Addr a" by simp
    with q(1) have "a \<noteq> q" by auto
    moreover from a have "\<forall>i. Suc c \<le> i \<and> i < Suc c + length ss \<longrightarrow> ps ! i \<noteq> Addr a"
      by simp
    with h'(2) have "heap_load h' a = heap_load ?h1 a" by blast
    ultimately show ?thesis by (simp add: heap_load_update_other)
  qed
  from run frame show ?case by blast
qed

text \<open>On an initialised tablet \<^verbatim>\<open>destroy\<close> returns: every block it releases is live.\<close>

lemma destroy_returns:
  assumes "initialized t h"
  shows "\<exists>h'. destroy t h = Some (t\<lparr>timestamps := None, value_matrix := None\<rparr>, h')"
proof -
  let ?n = "nat (max_row_num t)"
  from assms obtain ts xs where ts: "timestamps t = Some ts" "heap_load h ts = Some (TimeArray xs)"
    by (auto simp: initialized_def timestamps_ok_iff)
  from assms obtain vm ps where vm: "value_matrix t = Some vm"
    "heap_load h vm = Some (PtrArray ps)" "length ps = length (schema_vec t)" "distinct ps"
    "list_all (column_ok h ?n) ps"
    by (auto simp: initialized_def value_matrix_ok_iff)
  from assms obtain b bs where b: "bitmaps t = Some b" "heap_load h b = Some (BitMapArray bs)"
    by (auto simp: initialized_def bitmaps_ok_iff)
  let ?h1 = "h[ts := None]"
  have f1: "heap_free h ts = Some ?h1" using ts(2) by (rule heap_free_live)
  from ts(2) vm(2) b(2) have ne1: "vm \<noteq> ts" "b \<noteq> ts" "b \<noteq> vm" by auto
  have l1: "heap_load ?h1 vm = Some (PtrArray ps)" "heap_load ?h1 b = Some (BitMapArray bs)"
    using vm(2) b(2) ne1 by (simp_all add: heap_load_update_other)
  have col: "column_ok h ?n (ps ! i)" if "i < length ps" for i
    using vm(5) that by (simp add: list_all_length)
  have ok1: "\<forall>i. 0 \<le> i \<and> i < 0 + length (schema_vec t) \<longrightarrow> column_ok ?h1 ?n (ps ! i)"
  proof (intro allI impI)
    fix i assume "0 \<le> i \<and> i < 0 + length (schema_vec t)"
    with vm(3) have ok: "column_ok h ?n (ps ! i)" by (simp add: col)
    with ts(2) have "ps ! i \<noteq> Addr ts" by (auto simp: column_ok_iff)
    with ts(2) ok show "column_ok ?h1 ?n (ps ! i)" by (rule column_ok_release_other)
  qed
  have le: "0 + length (schema_vec t) \<le> length ps" using vm(3) by simp
  from free_columns_ok [OF l1(1) le vm(4) ok1] obtain h2 where
    h2: "free_columns (schema_vec t) 0 vm ?h1 = Some h2"
        "\<forall>a. (\<forall>i. 0 \<le> i \<and> i < 0 + length (schema_vec t) \<longrightarrow> ps ! i \<noteq> Addr a) \<longrightarrow>
              heap_load h2 a = heap_load ?h1 a"
    by blast
  have nocol: "ps ! i \<noteq> Addr a" if "i < length (schema_vec t)"
    "heap_load h a = Some blk" "\<forall>ys. blk \<noteq> ValueArray ys" for i a blk
    using col [of i] that vm(3) by (auto simp: column_ok_iff)
  have l2: "heap_load h2 vm = Some (PtrArray ps)" "heap_load h2 b = Some (BitMapArray bs)"
    using h2(2) l1 nocol [OF _ vm(2)] nocol [OF _ b(2)] by simp_all
  let ?h3 = "h2[vm := None]"
  have f3: "heap_free h2 vm = Some ?h3" using l2(1) by (rule heap_free_live)
  have l3: "heap_load ?h3 b = Some (BitMapArray bs)"
    using l2(2) ne1 by (simp add: heap_load_update_other)
  have f4: "heap_free ?h3 b = Some (?h3[b := None])" using l3 by (rule heap_free_live)
  have "destroy t h = Some (t\<lparr>timestamps := None, value_matrix := None\<rparr>, ?h3[b := None])"
    using ts(1) vm(1) b(1) f1 h2(1) f3 f4 by (simp add: destroy_def)
  then show ?thesis by blast
qed

text \<open>What a call of \<^verbatim>\<open>destroy\<close> that returns has done.\<close>

lemma destroy_effect:
  assumes "destroy t h = Some (t', h')"
  shows "timestamps t' = None \<and> value_matrix t' = None \<and> bitmaps t' = bitmaps t \<and>
         (\<forall>p. timestamps t = Some p \<longrightarrow> heap_load h' p = None) \<and>
         (\<forall>vm. value_matrix t = Some vm \<longrightarrow> heap_load h' vm = None) \<and>
         (\<forall>b. bitmaps t = Some b \<longrightarrow>
            heap_load h' b = None \<and>
            destroy t' h' = heap_free h' b \<bind> (\<lambda>h''. Some (t', h'')) \<and>
            destroy t' h' = None) \<and>
         (bitmaps t = None \<longrightarrow> destroy t' h' = Some (t', h'))"
proof -
  from assms obtain t1 h1 t2 h2 where
    s1: "(case timestamps t of None \<Rightarrow> Some (t, h)
          | Some ts \<Rightarrow> heap_free h ts \<bind> (\<lambda>h. Some (t\<lparr>timestamps := None\<rparr>, h))) = Some (t1, h1)"
    and s2: "(case value_matrix t1 of None \<Rightarrow> Some (t1, h1)
          | Some vm \<Rightarrow> free_columns (schema_vec t1) 0 vm h1 \<bind>
              (\<lambda>h. heap_free h vm \<bind> (\<lambda>h. Some (t1\<lparr>value_matrix := None\<rparr>, h)))) = Some (t2, h2)"
    and s3: "(case bitmaps t2 of None \<Rightarrow> Some (t2, h2)
          | Some b \<Rightarrow> heap_free h2 b \<bind> (\<lambda>h. Some (t2, h))) = Some (t', h')"
    by (auto simp: destroy_def split: Option.bind_splits)
  from s1 have t1: "timestamps t1 = None" "value_matrix t1 = value_matrix t"
    "bitmaps t1 = bitmaps t" "\<forall>p. timestamps t = Some p \<longrightarrow> heap_load h1 p = None"
    by (auto split: option.splits Option.bind_splits dest: heap_free_released)
  from s2 have t2: "timestamps t2 = timestamps t1" "value_matrix t2 = None"
    "bitmaps t2 = bitmaps t1" "\<forall>vm. value_matrix t1 = Some vm \<longrightarrow> heap_load h2 vm = None"
    "\<And>a. heap_load h1 a = None \<Longrightarrow> heap_load h2 a = None"
    by (auto split: option.splits Option.bind_splits
        dest: heap_free_released heap_free_keeps_released free_columns_keeps_released)
  from s3 have t3: "t' = t2" "\<forall>b. bitmaps t2 = Some b \<longrightarrow> heap_load h' b = None"
    "\<And>a. heap_load h2 a = None \<Longrightarrow> heap_load h' a = None"
    "bitmaps t2 = None \<longrightarrow> h' = h2"
    by (auto split: option.splits Option.bind_splits
        dest: heap_free_released heap_free_keeps_released)
  have f: "timestamps t' = None" "value_matrix t' = None" "bitmaps t' = bitmaps t"
    using t1 t2 t3 by simp_all
  have again: "destroy t' h' = (case bitmaps t of None \<Rightarrow> Some (t', h')
                 | Some b \<Rightarrow> heap_free h' b \<bind> (\<lambda>h''. Some (t', h'')))"
    using f by (simp add: destroy_def split: option.splits)
  have rel: "\<forall>b. bitmaps t = Some b \<longrightarrow> heap_load h' b = None"
    using t3(2) t2(3) t1(3) by simp
  from f t1(4) t2(4,5) t3(3) t1(2) rel again show ?thesis
    by (auto simp: heap_free_again)
qed

section \<open>The claims\<close>

text \<open>
  C1, as the code has it. On an initialised tablet, for every column index below the
  number of columns and every value: with a runtime type that differs from the declared
  type of the column, \<^verbatim>\<open>add_value\<close> returns \<open>E_TYPE_NOT_MATCH\<close> at every row index and
  leaves the object and the heap as they were. At every row index below the capacity it
  returns \<open>E_OK\<close> if and only if the two types are equal, and it then stores the value
  in the array of the column at the row index, sets that bit of the bitmap of the column,
  and changes nothing else.
\<close>

theorem add_value_type_check:
  assumes "initialized t h" and "unat schema_index < length (schema_vec t)"
  shows "(GetDataTypeFromTemplateType v \<noteq> data_type (schema_vec t ! unat schema_index) \<longrightarrow>
            add_value t h row_index schema_index v = Some (E_TYPE_NOT_MATCH, t, h)) \<and>
         (unat row_index < nat (max_row_num t) \<longrightarrow>
            ((\<exists>t' h'. add_value t h row_index schema_index v = Some (E_OK, t', h')) \<longleftrightarrow>
               GetDataTypeFromTemplateType v = data_type (schema_vec t ! unat schema_index)) \<and>
            (GetDataTypeFromTemplateType v = data_type (schema_vec t ! unat schema_index) \<longrightarrow>
               (\<exists>p xs b bs.
                  load_column_ptr h (value_matrix t) (unat schema_index) = Some p \<and>
                  heap_load h p = Some (ValueArray xs) \<and>
                  bitmaps t = Some b \<and> heap_load h b = Some (BitMapArray bs) \<and>
                  add_value t h row_index schema_index v =
                    Some (E_OK, t,
                          h[p := Some (ValueArray (xs[unat row_index := Some v])),
                            b := Some (BitMapArray
                                   (bs[unat schema_index :=
                                         (bs ! unat schema_index)[unat row_index := True]]))]))))"
proof -
  let ?m = "GetDataTypeFromTemplateType v = data_type (schema_vec t ! unat schema_index)"
  have mis: "add_value t h row_index schema_index v = Some (E_TYPE_NOT_MATCH, t, h)" if "\<not> ?m"
    using assms(2) that by (rule add_value_mismatch)
  have ok: "\<exists>p xs b bs.
                  load_column_ptr h (value_matrix t) (unat schema_index) = Some p \<and>
                  heap_load h p = Some (ValueArray xs) \<and>
                  bitmaps t = Some b \<and> heap_load h b = Some (BitMapArray bs) \<and>
                  add_value t h row_index schema_index v =
                    Some (E_OK, t,
                          h[p := Some (ValueArray (xs[unat row_index := Some v])),
                            b := Some (BitMapArray
                                   (bs[unat schema_index :=
                                         (bs ! unat schema_index)[unat row_index := True]]))])"
    if "unat row_index < nat (max_row_num t)" ?m
    using add_value_ok [OF assms that] by blast
  have iff: "(\<exists>t' h'. add_value t h row_index schema_index v = Some (E_OK, t', h')) \<longleftrightarrow> ?m"
    if r: "unat row_index < nat (max_row_num t)"
  proof (cases ?m)
    case True
    from ok [OF r True] True show ?thesis by auto
  next
    case False
    from mis [OF False] False show ?thesis by simp
  qed
  from mis ok iff show ?thesis by blast
qed

theorem add_value_type_check_witness:
  "initialized t1_tablet t1_heap \<and>
   add_value t1_tablet t1_heap 1 0 (Int32 42) = Some (E_TYPE_NOT_MATCH, t1_tablet, t1_heap) \<and>
   add_value t1_tablet t1_heap 1 0 (Int64 42) =
     Some (E_OK, t1_tablet,
           t1_heap[2 := Some (ValueArray [None, Some (Int64 42)]),
                   3 := Some (BitMapArray [[False, True]])])"
proof -
  have c: "unat (0 :: 32 word) < length (schema_vec t1_tablet)"
    by (simp add: t1_tablet_def t1_schema_def)
  from add_value_type_check [OF initialized_t1 c, of "Int32 42" 1]
  have a: "add_value t1_tablet t1_heap 1 0 (Int32 42) = Some (E_TYPE_NOT_MATCH, t1_tablet, t1_heap)"
    by (simp add: t1_tablet_def t1_schema_def)
  from add_value_type_check [OF initialized_t1 c, of "Int64 42" 1]
  have b: "add_value t1_tablet t1_heap 1 0 (Int64 42) =
     Some (E_OK, t1_tablet,
           t1_heap[2 := Some (ValueArray [None, Some (Int64 42)]),
                   3 := Some (BitMapArray [[False, True]])])"
    by (auto simp: t1_tablet_def t1_schema_def t1_heap_def load_column_ptr_def heap_load_def)
  from initialized_t1 a b show ?thesis by simp
qed

text \<open>
  C1, as stated for every row index, fails: on the example tablet of capacity 2 the
  column index 0 is in range and an \<^verbatim>\<open>int64_t\<close> is the declared type of the column, yet
  at row index 5 the call does not succeed: the store \<^verbatim>\<open>column_values[5] = val\<close> is
  outside the array of the column, which is undefined behaviour.
\<close>

theorem add_value_row_unchecked:
  "initialized t1_tablet t1_heap \<and>
   unat (0 :: 32 word) < length (schema_vec t1_tablet) \<and>
   GetDataTypeFromTemplateType (Int64 1) = data_type (schema_vec t1_tablet ! unat (0 :: 32 word)) \<and>
   add_value t1_tablet t1_heap 5 0 (Int64 1) = None"
  using initialized_t1
  by (simp add: add_value_def LIKELY_def load_column_ptr_def store_value_def heap_load_def
      t1_tablet_def t1_heap_def t1_schema_def)

text \<open>
  C2. The scenario returns normally up to its second write: the timestamp of row 0 reads
  1000, cell (0, t1) reads 42 and its bit reads as set. The third call,
  \<open>SetValue(5, "t1", 1)\<close>, returns no error: \<^verbatim>\<open>add_value\<close> has no test of the row index,
  the name resolves to column 0, the types agree, and the store \<^verbatim>\<open>column_values[5] = val\<close>
  is outside the array of 2 cells, which is undefined behaviour.
\<close>

theorem scenario_row_beyond_capacity:
  "scenario = Some (t1_tablet, scenario_heap) \<and>
   timestamp_slot t1_tablet scenario_heap 0 = Some 1000 \<and>
   column_cell t1_tablet scenario_heap 0 0 = Some (Int64 42) \<and>
   bitmap_bit t1_tablet scenario_heap 0 0 = Some True \<and>
   add_value_by_name t1_tablet scenario_heap 5 ''t1'' (Int64 1) = None"
proof -
  have 1: "add_timestamp t1_tablet t1_heap 0 1000 =
             Some (E_OK, t1_tablet, t1_heap[0 := Some (TimeArray [Some 1000, None])])"
    by (simp add: add_timestamp_def ASSERT_def UNLIKELY_def store_timestamp_def heap_store_def
        heap_load_def t1_tablet_def t1_heap_def)
  have 2: "add_value_by_name t1_tablet (t1_heap[0 := Some (TimeArray [Some 1000, None])]) 0 ''t1''
             (Int64 42) = Some (E_OK, t1_tablet, scenario_heap)"
    by (simp add: add_value_by_name_def add_value_def LIKELY_def load_column_ptr_def
        store_value_def set_bitmap_def BitMap_set_def heap_store_def heap_load_def
        t1_tablet_def t1_heap_def t1_schema_def scenario_heap_def)
  have 3: "scenario = Some (t1_tablet, scenario_heap)"
    by (simp add: scenario_def init_t1 1 2)
  have 4: "timestamp_slot t1_tablet scenario_heap 0 = Some 1000"
    by (simp add: timestamp_slot_def heap_load_def t1_tablet_def scenario_heap_def)
  have 5: "column_cell t1_tablet scenario_heap 0 0 = Some (Int64 42)"
    by (simp add: column_cell_def load_column_ptr_def heap_load_def t1_tablet_def scenario_heap_def)
  have 6: "bitmap_bit t1_tablet scenario_heap 0 0 = Some True"
    by (simp add: bitmap_bit_def BitMap_test_def heap_load_def t1_tablet_def scenario_heap_def)
  have 7: "add_value_by_name t1_tablet scenario_heap 5 ''t1'' (Int64 1) = None"
    by (simp add: add_value_by_name_def add_value_def LIKELY_def load_column_ptr_def
        store_value_def heap_load_def t1_tablet_def t1_schema_def scenario_heap_def)
  from 3 4 5 6 7 show ?thesis by simp
qed

text \<open>
  C3, as the code has it. On a tablet as constructed (empty name index) with a positive
  capacity, whose schema has a name twice, \<^verbatim>\<open>init\<close> returns \<open>E_INVALID_ARG\<close> from the
  first loop, at the first entry \<open>k\<close> whose name an earlier entry has. \<^verbatim>\<open>value_matrix_\<close> and \<^verbatim>\<open>bitmaps_\<close> are
  not allocated and stay as they were. The timestamp array, allocated before the loop,
  stays allocated with \<^verbatim>\<open>timestamps_\<close> pointing to it, and \<^verbatim>\<open>schema_map_\<close> keeps the
  index of the first \<open>k\<close> entries.
\<close>

theorem init_duplicate_name:
  assumes "schema_map t = Mapping.empty"
    and "\<not> distinct (map measurement_name (schema_vec t))"
    and "0 < max_row_num t"
  shows "\<exists>k m. k < length (schema_vec t) \<and>
           measurement_name (schema_vec t ! k) \<in> set (map measurement_name (take k (schema_vec t))) \<and>
           insert_names (take k (schema_vec t)) 0 Mapping.empty = (True, m) \<and>
           init t h =
             Some (E_INVALID_ARG,
                   t\<lparr>timestamps := Some (length h), schema_map := m\<rparr>,
                   h @ [Some (TimeArray (replicate (nat (max_row_num t)) None))])"
proof -
  have nf: "\<not> fst (insert_names (schema_vec t) 0 (schema_map t))"
    using assms(1,2) by (rule init_not_distinct)
  from assms(3) have nn: "0 \<le> max_row_num t" by simp
  from insert_names_first_dup [OF nf] assms(1) obtain k where
    k: "k < length (schema_vec t)" "fst (insert_names (take k (schema_vec t)) 0 Mapping.empty)"
       "snd (insert_names (schema_vec t) 0 Mapping.empty) =
        snd (insert_names (take k (schema_vec t)) 0 Mapping.empty)"
       "Mapping.lookup (snd (insert_names (take k (schema_vec t)) 0 Mapping.empty))
          (measurement_name (schema_vec t ! k)) \<noteq> None"
    by auto
  let ?m = "snd (insert_names (take k (schema_vec t)) 0 Mapping.empty)"
  have mem: "measurement_name (schema_vec t ! k) \<in> set (map measurement_name (take k (schema_vec t)))"
  proof (rule ccontr)
    assume "\<not> ?thesis"
    from insert_names_other [OF this, of 0 Mapping.empty] k(4) show False
      by simp
  qed
  have pr: "insert_names (take k (schema_vec t)) 0 Mapping.empty = (True, ?m)"
    using k(2) by (simp add: prod_eq_iff)
  have "init t h =
             Some (E_INVALID_ARG,
                   t\<lparr>timestamps := Some (length h), schema_map := ?m\<rparr>,
                   h @ [Some (TimeArray (replicate (nat (max_row_num t)) None))])"
    using init_dup [OF nf nn, of h] k(3) assms(1) by simp
  with k(1) mem pr show ?thesis by blast
qed

theorem init_duplicate_name_witness:
  "0 < max_row_num (new_tablet dup_schema 2) \<and>
   init (new_tablet dup_schema 2) [] =
     Some (E_INVALID_ARG,
           (new_tablet dup_schema 2)\<lparr>timestamps := Some 0,
              schema_map := Mapping.update ''t1'' 0 Mapping.empty\<rparr>,
           [Some (TimeArray [None, None])])"
proof -
  have 1: "schema_map (new_tablet dup_schema 2) = Mapping.empty" by (simp add: new_tablet_def)
  have 2: "\<not> distinct (map measurement_name (schema_vec (new_tablet dup_schema 2)))"
    by (simp add: new_tablet_def dup_schema_def)
  have 3: "0 < max_row_num (new_tablet dup_schema 2)" by (simp add: new_tablet_def)
  from init_duplicate_name [OF 1 2 3, of "[]"] obtain k m where
    k: "k < length (schema_vec (new_tablet dup_schema 2))"
       "measurement_name (schema_vec (new_tablet dup_schema 2) ! k)
          \<in> set (map measurement_name (take k (schema_vec (new_tablet dup_schema 2))))"
       "insert_names (take k (schema_vec (new_tablet dup_schema 2))) 0 Mapping.empty = (True, m)"
       "init (new_tablet dup_schema 2) [] =
             Some (E_INVALID_ARG,
                   (new_tablet dup_schema 2)\<lparr>timestamps := Some (length ([] :: heap)), schema_map := m\<rparr>,
                   [] @ [Some (TimeArray (replicate (nat (max_row_num (new_tablet dup_schema 2))) None))])"
    by blast
  from k(1) have "k = 0 \<or> k = 1" by (auto simp: new_tablet_def dup_schema_def)
  with k(2) have k1: "k = 1" by auto
  with k(3) have "m = Mapping.update ''t1'' 0 Mapping.empty"
    by (simp add: new_tablet_def dup_schema_def)
  with k(4) 3 show ?thesis by (simp add: new_tablet_def numeral_2_eq_2)
qed

text \<open>
  C3, as stated, fails: with the schema \<open>[{"t1", int64}, {"t1", double}]\<close> and capacity 2
  on an empty heap, \<^verbatim>\<open>init\<close> returns \<open>E_INVALID_ARG\<close> with one block, the timestamp
  array, live on the heap where none was before, \<^verbatim>\<open>timestamps_\<close> no longer \<^verbatim>\<open>NULL\<close>,
  and \<open>"t1"\<close> in \<^verbatim>\<open>schema_map_\<close>, which was empty.
\<close>

theorem init_duplicate_name_keeps_storage:
  "init (new_tablet dup_schema 2) [] =
     Some (E_INVALID_ARG,
           \<lparr>max_row_num = 2, schema_vec = dup_schema,
            schema_map = Mapping.update ''t1'' 0 Mapping.empty,
            timestamps = Some 0, value_matrix = None, bitmaps = None\<rparr>,
           [Some (TimeArray [None, None])]) \<and>
   live_blocks [Some (TimeArray [None, None])] = [0] \<and>
   live_blocks [] = [] \<and>
   Mapping.lookup (Mapping.update ''t1'' (0 :: 32 word) Mapping.empty) ''t1'' = Some 0 \<and>
   Mapping.lookup (schema_map (new_tablet dup_schema 2)) ''t1'' = None"
  by (simp add: init_def ASSERT_def malloc_cells_def heap_malloc_def new_tablet_def
      dup_schema_def live_blocks_def numeral_2_eq_2)

text \<open>
  C4. On an initialised tablet, \<^verbatim>\<open>add_timestamp\<close> with a row index at or beyond the
  capacity returns \<open>E_OUT_OF_RANGE\<close> and leaves the object and the heap as they were.
  With a row index below the capacity it returns \<open>E_OK\<close> and overwrites that slot of the
  timestamp array, and nothing else; the slot then reads the value written, and writing
  the same row a second time gives the state that the second write alone gives.
\<close>

theorem add_timestamp_bounds:
  assumes "initialized t h"
  shows "(nat (max_row_num t) \<le> unat row_index \<longrightarrow>
            add_timestamp t h row_index x = Some (E_OUT_OF_RANGE, t, h)) \<and>
         (unat row_index < nat (max_row_num t) \<longrightarrow>
            (\<exists>p xs. timestamps t = Some p \<and> heap_load h p = Some (TimeArray xs) \<and>
               add_timestamp t h row_index x =
                 Some (E_OK, t, h[p := Some (TimeArray (xs[unat row_index := Some x]))]) \<and>
               timestamp_slot t (h[p := Some (TimeArray (xs[unat row_index := Some x]))])
                 (unat row_index) = Some x \<and>
               add_timestamp t (h[p := Some (TimeArray (xs[unat row_index := Some x]))]) row_index y =
                 Some (E_OK, t, h[p := Some (TimeArray (xs[unat row_index := Some y]))])))"
proof -
  from assms have cap: "0 \<le> max_row_num t" "max_row_num t < 2 ^ 32" and ok: "timestamps_ok t h"
    by (simp_all add: initialized_def)
  have cmp: "(word_of_int (max_row_num t) :: 32 word) \<le> row_index \<longleftrightarrow>
               nat (max_row_num t) \<le> unat row_index"
    by (simp add: word_le_nat_alt unat_capacity [OF cap])
  from timestamps_okD [OF ok] obtain p xs where
    p: "timestamps t = Some p" "heap_load h p = Some (TimeArray xs)"
       "length xs = nat (max_row_num t)"
    by blast
  from p(2) have pl: "p < length h" by (rule heap_load_Some_less)
  have hi: "nat (max_row_num t) \<le> unat row_index \<longrightarrow>
            add_timestamp t h row_index x = Some (E_OUT_OF_RANGE, t, h)"
    by (simp add: add_timestamp_def ASSERT_def UNLIKELY_def cmp)
  have wr: "add_timestamp t h' row_index z =
              Some (E_OK, t, h'[p := Some (TimeArray (ys[unat row_index := Some z]))])"
    if "unat row_index < nat (max_row_num t)" "heap_load h' p = Some (TimeArray ys)"
       "length ys = nat (max_row_num t)" for h' ys z
    using that p(1)
    by (simp add: add_timestamp_def ASSERT_def UNLIKELY_def cmp store_timestamp_def heap_store_def)
  have lo: "\<exists>p xs. timestamps t = Some p \<and> heap_load h p = Some (TimeArray xs) \<and>
               add_timestamp t h row_index x =
                 Some (E_OK, t, h[p := Some (TimeArray (xs[unat row_index := Some x]))]) \<and>
               timestamp_slot t (h[p := Some (TimeArray (xs[unat row_index := Some x]))])
                 (unat row_index) = Some x \<and>
               add_timestamp t (h[p := Some (TimeArray (xs[unat row_index := Some x]))]) row_index y =
                 Some (E_OK, t, h[p := Some (TimeArray (xs[unat row_index := Some y]))])"
    if r: "unat row_index < nat (max_row_num t)"
  proof -
    let ?h1 = "h[p := Some (TimeArray (xs[unat row_index := Some x]))]"
    have l1: "heap_load ?h1 p = Some (TimeArray (xs[unat row_index := Some x]))"
      using pl by (simp add: heap_load_update_same)
    have a: "add_timestamp t h row_index x = Some (E_OK, t, ?h1)"
      using wr [OF r p(2) p(3)] .
    have b: "timestamp_slot t ?h1 (unat row_index) = Some x"
      using r p(1) p(3) l1 by (simp add: timestamp_slot_def)
    have c: "add_timestamp t ?h1 row_index y =
               Some (E_OK, t, h[p := Some (TimeArray (xs[unat row_index := Some y]))])"
      using wr [OF r l1, of y] p(3) by simp
    from p(1) p(2) a b c show ?thesis by blast
  qed
  from hi lo show ?thesis by blast
qed

theorem add_timestamp_bounds_witness:
  "initialized t1_tablet t1_heap \<and>
   add_timestamp t1_tablet t1_heap 2 1000 = Some (E_OUT_OF_RANGE, t1_tablet, t1_heap) \<and>
   add_timestamp t1_tablet t1_heap 0 1000 =
     Some (E_OK, t1_tablet, t1_heap[0 := Some (TimeArray [Some 1000, None])]) \<and>
   add_timestamp t1_tablet (t1_heap[0 := Some (TimeArray [Some 1000, None])]) 0 2000 =
     Some (E_OK, t1_tablet, t1_heap[0 := Some (TimeArray [Some 2000, None])])"
  using add_timestamp_bounds [OF initialized_t1, of 2 1000 0]
    add_timestamp_bounds [OF initialized_t1, of 0 1000 2000] initialized_t1
  by (simp add: t1_tablet_def t1_heap_def heap_load_def)

text \<open>
  C5. For every column index greater than or equal to the number of columns, and every
  row index and value, the index form of \<^verbatim>\<open>add_value\<close> returns \<open>E_OUT_OF_RANGE\<close> and
  leaves the object and the whole heap, so every column array and every bitmap, as they
  were.
\<close>

theorem add_value_column_out_of_range:
  "length (schema_vec t) \<le> unat schema_index \<Longrightarrow>
   add_value t h row_index schema_index v = Some (E_OUT_OF_RANGE, t, h)"
  by (simp add: add_value_def LIKELY_def ASSERT_def)

theorem add_value_column_out_of_range_witness:
  "length (schema_vec t1_tablet) \<le> unat (1 :: 32 word) \<and>
   add_value t1_tablet t1_heap 0 1 (Int64 7) = Some (E_OUT_OF_RANGE, t1_tablet, t1_heap)"
proof -
  have le: "length (schema_vec t1_tablet) \<le> unat (1 :: 32 word)"
    by (simp add: t1_tablet_def t1_schema_def)
  from add_value_column_out_of_range [OF le] le show ?thesis by simp
qed

text \<open>
  C6. On an initialised tablet, for every entry \<open>c\<close> of the schema, the name form of
  \<^verbatim>\<open>add_value\<close> with the name of that entry gives the same result and the same state
  as the index form with column index \<open>c\<close>, for every row index and value. For a name
  that no entry of the schema has, it returns \<open>E_INVALID_ARG\<close> (the unknown-column
  error) and leaves the object and the heap as they were.
\<close>

theorem add_value_by_name_as_by_index:
  assumes "initialized t h"
  shows "(c < length (schema_vec t) \<longrightarrow>
            add_value_by_name t h row_index (measurement_name (schema_vec t ! c)) v =
            add_value t h row_index (of_nat c) v) \<and>
         (name \<notin> set (map measurement_name (schema_vec t)) \<longrightarrow>
            add_value_by_name t h row_index name v = Some (E_INVALID_ARG, t, h))"
proof -
  from assms have ix: "insert_names (schema_vec t) 0 Mapping.empty = (True, schema_map t)"
    by (simp add: initialized_def)
  have "add_value_by_name t h row_index (measurement_name (schema_vec t ! c)) v =
        add_value t h row_index (of_nat c) v" if "c < length (schema_vec t)"
    using name_index_present [OF ix that] by (simp add: add_value_by_name_def)
  moreover have "add_value_by_name t h row_index name v = Some (E_INVALID_ARG, t, h)"
    if "name \<notin> set (map measurement_name (schema_vec t))"
    using name_index_absent [OF ix that] by (rule add_value_by_name_unknown)
  ultimately show ?thesis by blast
qed

theorem add_value_by_name_as_by_index_witness:
  "initialized t1_tablet t1_heap \<and>
   add_value_by_name t1_tablet t1_heap 1 ''t1'' (Int64 42) =
     add_value t1_tablet t1_heap 1 0 (Int64 42) \<and>
   add_value t1_tablet t1_heap 1 0 (Int64 42) =
     Some (E_OK, t1_tablet,
           t1_heap[2 := Some (ValueArray [None, Some (Int64 42)]),
                   3 := Some (BitMapArray [[False, True]])]) \<and>
   add_value_by_name t1_tablet t1_heap 1 ''t2'' (Int64 42) = Some (E_INVALID_ARG, t1_tablet, t1_heap)"
proof -
  have a: "add_value t1_tablet t1_heap 1 0 (Int64 42) =
     Some (E_OK, t1_tablet,
           t1_heap[2 := Some (ValueArray [None, Some (Int64 42)]),
                   3 := Some (BitMapArray [[False, True]])])"
    by (simp add: add_value_def LIKELY_def load_column_ptr_def store_value_def set_bitmap_def
        BitMap_set_def heap_load_def heap_store_def t1_tablet_def t1_heap_def t1_schema_def)
  from add_value_by_name_as_by_index [OF initialized_t1, of 0 1 "Int64 42" "''t2''"] a initialized_t1
  show ?thesis by (simp add: t1_tablet_def t1_schema_def)
qed

text \<open>
  C7. On a tablet with a positive capacity, \<^verbatim>\<open>init\<close> succeeds when the tablet is as
  constructed (empty name index) and the names of the schema are distinct. Whenever
  \<^verbatim>\<open>init\<close> has returned \<open>E_OK\<close>, before any write: the capacity and the schema of the
  tablet are the ones it was constructed with; \<^verbatim>\<open>timestamps_\<close>, \<^verbatim>\<open>value_matrix_\<close>,
  every entry of \<^verbatim>\<open>value_matrix_\<close> and \<^verbatim>\<open>bitmaps_\<close> point to live arrays; the
  timestamp array, the array of every column and the bitmap of every column have length
  exactly that capacity, with one column and one bitmap for each entry of the schema; and
  every bit of every bitmap reads as clear.
\<close>

theorem init_allocates:
  assumes "0 < max_row_num t"
  shows "(schema_map t = Mapping.empty \<and> distinct (map measurement_name (schema_vec t)) \<longrightarrow>
            (\<exists>t' h'. init t h = Some (E_OK, t', h'))) \<and>
         (\<forall>t' h'. init t h = Some (E_OK, t', h') \<longrightarrow>
            max_row_num t' = max_row_num t \<and> schema_vec t' = schema_vec t \<and>
            (\<exists>ts xs vm ps b bs.
               timestamps t' = Some ts \<and> heap_load h' ts = Some (TimeArray xs) \<and>
               int (length xs) = max_row_num t \<and>
               value_matrix t' = Some vm \<and> heap_load h' vm = Some (PtrArray ps) \<and>
               length ps = length (schema_vec t) \<and>
               (\<forall>c<length (schema_vec t).
                  \<exists>q ys. ps ! c = Addr q \<and> heap_load h' q = Some (ValueArray ys) \<and>
                    int (length ys) = max_row_num t) \<and>
               bitmaps t' = Some b \<and> heap_load h' b = Some (BitMapArray bs) \<and>
               length bs = length (schema_vec t) \<and>
               (\<forall>c<length (schema_vec t).
                  int (length (bs ! c)) = max_row_num t \<and>
                  (\<forall>i<length (bs ! c). bitmap_bit t' h' c i = Some False))))"
proof (rule conjI)
  from assms have nn: "0 \<le> max_row_num t" by simp
  show "schema_map t = Mapping.empty \<and> distinct (map measurement_name (schema_vec t)) \<longrightarrow>
          (\<exists>t' h'. init t h = Some (E_OK, t', h'))"
  proof
    assume "schema_map t = Mapping.empty \<and> distinct (map measurement_name (schema_vec t))"
    then have "fst (insert_names (schema_vec t) 0 (schema_map t))"
      by (simp add: insert_names_fst)
    then show "\<exists>t' h'. init t h = Some (E_OK, t', h')"
      using init_E_OK_iff [OF nn, of h] by blast
  qed
next
  from assms have nn: "0 \<le> max_row_num t" by simp
  let ?k = "length (schema_vec t)" and ?n = "nat (max_row_num t)" and ?L = "length h"
  let ?T = "Some (TimeArray (replicate ?n None))"
  let ?P = "Some (PtrArray (map Addr [?L + 2..<?L + 2 + ?k]))"
  let ?V = "Some (ValueArray (replicate ?n None))"
  let ?B = "Some (BitMapArray (replicate ?k (replicate ?n False)))"
  show "\<forall>t' h'. init t h = Some (E_OK, t', h') \<longrightarrow>
            max_row_num t' = max_row_num t \<and> schema_vec t' = schema_vec t \<and>
            (\<exists>ts xs vm ps b bs.
               timestamps t' = Some ts \<and> heap_load h' ts = Some (TimeArray xs) \<and>
               int (length xs) = max_row_num t \<and>
               value_matrix t' = Some vm \<and> heap_load h' vm = Some (PtrArray ps) \<and>
               length ps = length (schema_vec t) \<and>
               (\<forall>c<length (schema_vec t).
                  \<exists>q ys. ps ! c = Addr q \<and> heap_load h' q = Some (ValueArray ys) \<and>
                    int (length ys) = max_row_num t) \<and>
               bitmaps t' = Some b \<and> heap_load h' b = Some (BitMapArray bs) \<and>
               length bs = length (schema_vec t) \<and>
               (\<forall>c<length (schema_vec t).
                  int (length (bs ! c)) = max_row_num t \<and>
                  (\<forall>i<length (bs ! c). bitmap_bit t' h' c i = Some False)))"
  proof (intro allI impI)
    fix t' h'
    assume ok: "init t h = Some (E_OK, t', h')"
    then have f: "fst (insert_names (schema_vec t) 0 (schema_map t))"
      using init_E_OK_iff [OF nn, of h] by blast
    from init_ok [OF f nn, of h] ok
    have t': "t' = t\<lparr>timestamps := Some ?L,
                      schema_map := snd (insert_names (schema_vec t) 0 (schema_map t)),
                      value_matrix := Some (?L + 1), bitmaps := Some (?L + 2 + ?k)\<rparr>"
      and h': "h' = h @ [?T, ?P] @ replicate ?k ?V @ [?B]"
      by simp_all
    have 1: "timestamps t' = Some ?L" "value_matrix t' = Some (?L + 1)"
      "bitmaps t' = Some (?L + 2 + ?k)" "schema_vec t' = schema_vec t"
      "max_row_num t' = max_row_num t"
      by (simp_all add: t')
    have 2: "heap_load h' ?L = ?T" "heap_load h' (?L + 1) = ?P" "heap_load h' (?L + 2 + ?k) = ?B"
      unfolding h' by (rule init_heap_loads)+
    have 3: "heap_load h' (?L + 2 + c) = ?V" if "c < ?k" for c
      unfolding h' using that by (rule init_heap_loads)
    have cols: "\<forall>c<length (schema_vec t).
        \<exists>q ys. map Addr [?L + 2..<?L + 2 + ?k] ! c = Addr q \<and>
          heap_load h' q = Some (ValueArray ys) \<and> int (length ys) = max_row_num t"
      using 3 nn by (simp del: upt_Suc)
    have bits: "\<forall>c<length (schema_vec t).
        int (length (replicate ?k (replicate ?n False) ! c)) = max_row_num t \<and>
        (\<forall>i<length (replicate ?k (replicate ?n False) ! c). bitmap_bit t' h' c i = Some False)"
      using nn 2(3) by (simp add: 1 bitmap_bit_def BitMap_test_def)
    have "timestamps t' = Some ?L \<and> heap_load h' ?L = Some (TimeArray (replicate ?n None)) \<and>
          int (length (replicate ?n (None :: 64 word option))) = max_row_num t \<and>
          value_matrix t' = Some (?L + 1) \<and>
          heap_load h' (?L + 1) = Some (PtrArray (map Addr [?L + 2..<?L + 2 + ?k])) \<and>
          length (map Addr [?L + 2..<?L + 2 + ?k]) = length (schema_vec t) \<and>
          bitmaps t' = Some (?L + 2 + ?k) \<and>
          heap_load h' (?L + 2 + ?k) = Some (BitMapArray (replicate ?k (replicate ?n False))) \<and>
          length (replicate ?k (replicate ?n False)) = length (schema_vec t)"
      using nn 2 by (simp add: 1 del: upt_Suc)
    with cols bits have "\<exists>ts xs vm ps b bs.
               timestamps t' = Some ts \<and> heap_load h' ts = Some (TimeArray xs) \<and>
               int (length xs) = max_row_num t \<and>
               value_matrix t' = Some vm \<and> heap_load h' vm = Some (PtrArray ps) \<and>
               length ps = length (schema_vec t) \<and>
               (\<forall>c<length (schema_vec t).
                  \<exists>q ys. ps ! c = Addr q \<and> heap_load h' q = Some (ValueArray ys) \<and>
                    int (length ys) = max_row_num t) \<and>
               bitmaps t' = Some b \<and> heap_load h' b = Some (BitMapArray bs) \<and>
               length bs = length (schema_vec t) \<and>
               (\<forall>c<length (schema_vec t).
                  int (length (bs ! c)) = max_row_num t \<and>
                  (\<forall>i<length (bs ! c). bitmap_bit t' h' c i = Some False))"
      by blast
    with 1(4,5) show "max_row_num t' = max_row_num t \<and> schema_vec t' = schema_vec t \<and>
            (\<exists>ts xs vm ps b bs.
               timestamps t' = Some ts \<and> heap_load h' ts = Some (TimeArray xs) \<and>
               int (length xs) = max_row_num t \<and>
               value_matrix t' = Some vm \<and> heap_load h' vm = Some (PtrArray ps) \<and>
               length ps = length (schema_vec t) \<and>
               (\<forall>c<length (schema_vec t).
                  \<exists>q ys. ps ! c = Addr q \<and> heap_load h' q = Some (ValueArray ys) \<and>
                    int (length ys) = max_row_num t) \<and>
               bitmaps t' = Some b \<and> heap_load h' b = Some (BitMapArray bs) \<and>
               length bs = length (schema_vec t) \<and>
               (\<forall>c<length (schema_vec t).
                  int (length (bs ! c)) = max_row_num t \<and>
                  (\<forall>i<length (bs ! c). bitmap_bit t' h' c i = Some False)))"
      by simp
  qed
qed

theorem init_allocates_witness:
  "0 < max_row_num (new_tablet t1_schema 2) \<and>
   init (new_tablet t1_schema 2) [] = Some (E_OK, t1_tablet, t1_heap) \<and>
   max_row_num t1_tablet = 2 \<and> schema_vec t1_tablet = t1_schema \<and>
   timestamps t1_tablet = Some 0 \<and> heap_load t1_heap 0 = Some (TimeArray [None, None]) \<and>
   value_matrix t1_tablet = Some 1 \<and> heap_load t1_heap 1 = Some (PtrArray [Addr 2]) \<and>
   heap_load t1_heap 2 = Some (ValueArray [None, None]) \<and>
   bitmaps t1_tablet = Some 3 \<and> heap_load t1_heap 3 = Some (BitMapArray [[False, False]]) \<and>
   bitmap_bit t1_tablet t1_heap 0 0 = Some False \<and> bitmap_bit t1_tablet t1_heap 0 1 = Some False"
proof -
  let ?t = "new_tablet t1_schema 2"
  have pos: "0 < max_row_num ?t" by (simp add: new_tablet_def)
  have pre: "schema_map ?t = Mapping.empty \<and> distinct (map measurement_name (schema_vec ?t))"
    by (simp add: new_tablet_def t1_schema_def)
  note a = init_allocates [OF pos, of "[]"]
  from a pre obtain t' h' where ok: "init ?t [] = Some (E_OK, t', h')" by blast
  from a ok have same: "max_row_num t' = max_row_num ?t" "schema_vec t' = schema_vec ?t"
    by blast+
  from a ok obtain ts xs vm ps b bs where
    f: "timestamps t' = Some ts" "heap_load h' ts = Some (TimeArray xs)"
       "int (length xs) = max_row_num ?t"
       "value_matrix t' = Some vm" "heap_load h' vm = Some (PtrArray ps)"
       "length ps = length (schema_vec ?t)"
       "bitmaps t' = Some b" "heap_load h' b = Some (BitMapArray bs)"
       "length bs = length (schema_vec ?t)"
       "\<forall>c<length (schema_vec ?t).
          int (length (bs ! c)) = max_row_num ?t \<and>
          (\<forall>i<length (bs ! c). bitmap_bit t' h' c i = Some False)"
    by blast
  from ok init_t1 have eq: "t' = t1_tablet" "h' = t1_heap" by simp_all
  from f(10) have bits: "bitmap_bit t' h' 0 0 = Some False" "bitmap_bit t' h' 0 1 = Some False"
    by (simp_all add: new_tablet_def t1_schema_def)
  have loads: "heap_load t1_heap 0 = Some (TimeArray [None, None])"
    "heap_load t1_heap 1 = Some (PtrArray [Addr 2])"
    "heap_load t1_heap 2 = Some (ValueArray [None, None])"
    "heap_load t1_heap 3 = Some (BitMapArray [[False, False]])"
    by (simp_all add: t1_heap_def heap_load_def)
  from pos ok same f(1,4,7) bits loads show ?thesis
    by (simp add: eq t1_tablet_def new_tablet_def)
qed

text \<open>
  C8. On an initialised tablet, for every row index below the capacity, every column index
  below the number of columns and any two values of the declared type of the column: the
  first \<^verbatim>\<open>add_value\<close> returns \<open>E_OK\<close>, after which the cell reads the first value and
  its bit reads as set; the second returns \<open>E_OK\<close>, after which the cell reads the second
  value and its bit still reads as set, and the state is the one that writing the second
  value alone gives.
\<close>

theorem add_value_overwrite:
  assumes "initialized t h" and "unat schema_index < length (schema_vec t)"
    and "unat row_index < nat (max_row_num t)"
    and "GetDataTypeFromTemplateType v1 = data_type (schema_vec t ! unat schema_index)"
    and "GetDataTypeFromTemplateType v2 = data_type (schema_vec t ! unat schema_index)"
  shows "\<exists>h1 h2.
           add_value t h row_index schema_index v1 = Some (E_OK, t, h1) \<and>
           column_cell t h1 (unat schema_index) (unat row_index) = Some v1 \<and>
           bitmap_bit t h1 (unat schema_index) (unat row_index) = Some True \<and>
           add_value t h1 row_index schema_index v2 = Some (E_OK, t, h2) \<and>
           column_cell t h2 (unat schema_index) (unat row_index) = Some v2 \<and>
           bitmap_bit t h2 (unat schema_index) (unat row_index) = Some True \<and>
           add_value t h row_index schema_index v2 = Some (E_OK, t, h2)"
proof -
  let ?c = "unat schema_index" and ?r = "unat row_index"
  from add_value_ok [OF assms(1,2,3,4)] obtain p xs b bs where
    1: "load_column_ptr h (value_matrix t) ?c = Some p" "heap_load h p = Some (ValueArray xs)"
       "length xs = nat (max_row_num t)" "bitmaps t = Some b"
       "heap_load h b = Some (BitMapArray bs)" "?c < length bs"
       "length (bs ! ?c) = nat (max_row_num t)"
       "add_value t h row_index schema_index v1 =
          Some (E_OK, t, h[p := Some (ValueArray (xs[?r := Some v1])),
                           b := Some (BitMapArray (bs[?c := (bs ! ?c)[?r := True]]))])"
      (is "_ = Some (E_OK, t, ?h1)")
    by blast
  from 1(2,5) have ne: "b \<noteq> p" by auto
  have r: "?r < length xs" "?r < length (bs ! ?c)" using assms(3) 1(3,7) by simp_all
  note rd1 = add_value_reads [OF 1(2,5,1,4) r(1) 1(6) r(2), of v1]
  have i1: "initialized t ?h1"
    using add_value_initialized [OF assms(1) 1(8)] .
  from add_value_ok [OF i1 assms(2,3,5)] obtain p' xs' b' bs' where
    2: "load_column_ptr ?h1 (value_matrix t) ?c = Some p'" "heap_load ?h1 p' = Some (ValueArray xs')"
       "length xs' = nat (max_row_num t)" "bitmaps t = Some b'"
       "heap_load ?h1 b' = Some (BitMapArray bs')" "?c < length bs'"
       "length (bs' ! ?c) = nat (max_row_num t)"
       "add_value t ?h1 row_index schema_index v2 =
          Some (E_OK, t, ?h1[p' := Some (ValueArray (xs'[?r := Some v2])),
                           b' := Some (BitMapArray (bs'[?c := (bs' ! ?c)[?r := True]]))])"
      (is "_ = Some (E_OK, t, ?h2)")
    by blast
  have r': "?r < length xs'" "?r < length (bs' ! ?c)" using assms(3) 2(3,7) by simp_all
  note rd2 = add_value_reads [OF 2(2,5,1,4) r'(1) 2(6) r'(2), of v2]
  have lb: "heap_load (h[p := Some (ValueArray (xs[?r := Some v1]))]) b = Some (BitMapArray bs)"
    using 1(5) ne by (simp add: heap_load_update_other)
  have "load_column_ptr ?h1 (value_matrix t) ?c = Some p"
    using 1(1)
    by (simp add: load_column_ptr_update_bitmap [OF lb] load_column_ptr_update_value [OF 1(2)])
  with 2(1) have p': "p' = p" by simp
  from 1(4) 2(4) have b': "b' = b" by simp
  have "heap_load ?h1 p = Some (ValueArray (xs[?r := Some v1]))"
    using ne by (simp add: heap_load_update [OF lb] heap_load_update [OF 1(2)])
  with 2(2) p' have xs': "xs' = xs[?r := Some v1]" by simp
  have "heap_load ?h1 b = Some (BitMapArray (bs[?c := (bs ! ?c)[?r := True]]))"
    by (simp add: heap_load_update [OF lb])
  with 2(5) b' have bs': "bs' = bs[?c := (bs ! ?c)[?r := True]]" by simp
  from add_value_ok [OF assms(1,2,3,5)] 1(1,2,4,5)
  have 3: "add_value t h row_index schema_index v2 =
          Some (E_OK, t, h[p := Some (ValueArray (xs[?r := Some v2])),
                           b := Some (BitMapArray (bs[?c := (bs ! ?c)[?r := True]]))])"
    by auto
  have "?h2 = h[p := Some (ValueArray (xs[?r := Some v2])),
                b := Some (BitMapArray (bs[?c := (bs ! ?c)[?r := True]]))]"
    using ne 1(6) by (simp add: p' b' xs' bs' list_update_swap [of b p])
  with 3 have 4: "add_value t h row_index schema_index v2 = Some (E_OK, t, ?h2)" by simp
  from 1(8) rd1 2(8) rd2 4 show ?thesis by blast
qed

theorem add_value_overwrite_witness:
  "add_value t1_tablet t1_heap 0 0 (Int64 42) =
     Some (E_OK, t1_tablet,
           t1_heap[2 := Some (ValueArray [Some (Int64 42), None]),
                   3 := Some (BitMapArray [[True, False]])]) \<and>
   bitmap_bit t1_tablet
     (t1_heap[2 := Some (ValueArray [Some (Int64 42), None]),
              3 := Some (BitMapArray [[True, False]])]) 0 0 = Some True \<and>
   add_value t1_tablet
     (t1_heap[2 := Some (ValueArray [Some (Int64 42), None]),
              3 := Some (BitMapArray [[True, False]])]) 0 0 (Int64 43) =
     Some (E_OK, t1_tablet,
           t1_heap[2 := Some (ValueArray [Some (Int64 43), None]),
                   3 := Some (BitMapArray [[True, False]])]) \<and>
   column_cell t1_tablet
     (t1_heap[2 := Some (ValueArray [Some (Int64 43), None]),
              3 := Some (BitMapArray [[True, False]])]) 0 0 = Some (Int64 43) \<and>
   bitmap_bit t1_tablet
     (t1_heap[2 := Some (ValueArray [Some (Int64 43), None]),
              3 := Some (BitMapArray [[True, False]])]) 0 0 = Some True"
proof -
  have c: "unat (0 :: 32 word) < length (schema_vec t1_tablet)"
    by (simp add: t1_tablet_def t1_schema_def)
  have r: "unat (0 :: 32 word) < nat (max_row_num t1_tablet)"
    by (simp add: t1_tablet_def)
  have 1: "GetDataTypeFromTemplateType (Int64 42) =
           data_type (schema_vec t1_tablet ! unat (0 :: 32 word))"
    by (simp add: t1_tablet_def t1_schema_def)
  have 2: "GetDataTypeFromTemplateType (Int64 43) =
           data_type (schema_vec t1_tablet ! unat (0 :: 32 word))"
    by (simp add: t1_tablet_def t1_schema_def)
  have e: "add_value t1_tablet t1_heap 0 0 v =
             (if GetDataTypeFromTemplateType v \<noteq> INT64 then Some (E_TYPE_NOT_MATCH, t1_tablet, t1_heap)
              else Some (E_OK, t1_tablet,
                     t1_heap[2 := Some (ValueArray [Some v, None]),
                             3 := Some (BitMapArray [[True, False]])]))" for v
    by (simp add: add_value_def LIKELY_def load_column_ptr_def store_value_def set_bitmap_def
        BitMap_set_def heap_load_def heap_store_def t1_tablet_def t1_heap_def t1_schema_def)
  from add_value_overwrite [OF initialized_t1 c r 1 2] show ?thesis
    by (auto simp: e)
qed

text \<open>
  C9. On an initialised tablet \<^verbatim>\<open>destroy\<close> returns. Whenever it returns,
  \<^verbatim>\<open>timestamps_\<close> and \<^verbatim>\<open>value_matrix_\<close> are \<^verbatim>\<open>NULL\<close> and the blocks they pointed to are
  released, while \<^verbatim>\<open>bitmaps_\<close> is what it was, pointing to a block that is now released.
  A second call therefore skips the timestamps and the value columns and consists of
  \<^verbatim>\<open>delete[] bitmaps_\<close> alone, on a block already released, which is undefined
  behaviour; when \<^verbatim>\<open>bitmaps_\<close> was \<^verbatim>\<open>NULL\<close> the second call changes nothing.
\<close>

theorem destroy_leaves_bitmaps:
  "(initialized t h \<longrightarrow> (\<exists>t' h'. destroy t h = Some (t', h'))) \<and>
   (\<forall>t' h'. destroy t h = Some (t', h') \<longrightarrow>
      timestamps t' = None \<and> value_matrix t' = None \<and> bitmaps t' = bitmaps t \<and>
      (\<forall>p. timestamps t = Some p \<longrightarrow> heap_load h' p = None) \<and>
      (\<forall>vm. value_matrix t = Some vm \<longrightarrow> heap_load h' vm = None) \<and>
      (\<forall>b. bitmaps t = Some b \<longrightarrow>
         heap_load h' b = None \<and>
         destroy t' h' = heap_free h' b \<bind> (\<lambda>h''. Some (t', h'')) \<and>
         destroy t' h' = None) \<and>
      (bitmaps t = None \<longrightarrow> destroy t' h' = Some (t', h')))"
proof (rule conjI)
  show "initialized t h \<longrightarrow> (\<exists>t' h'. destroy t h = Some (t', h'))"
    using destroy_returns [of t h] by blast
next
  show "\<forall>t' h'. destroy t h = Some (t', h') \<longrightarrow>
      timestamps t' = None \<and> value_matrix t' = None \<and> bitmaps t' = bitmaps t \<and>
      (\<forall>p. timestamps t = Some p \<longrightarrow> heap_load h' p = None) \<and>
      (\<forall>vm. value_matrix t = Some vm \<longrightarrow> heap_load h' vm = None) \<and>
      (\<forall>b. bitmaps t = Some b \<longrightarrow>
         heap_load h' b = None \<and>
         destroy t' h' = heap_free h' b \<bind> (\<lambda>h''. Some (t', h'')) \<and>
         destroy t' h' = None) \<and>
      (bitmaps t = None \<longrightarrow> destroy t' h' = Some (t', h'))"
    using destroy_effect [of t h] by blast
qed

theorem destroy_leaves_bitmaps_witness:
  "initialized t1_tablet t1_heap \<and>
   destroy t1_tablet t1_heap =
     Some (t1_tablet\<lparr>timestamps := None, value_matrix := None\<rparr>, [None, None, None, None]) \<and>
   bitmaps (t1_tablet\<lparr>timestamps := None, value_matrix := None\<rparr>) = Some 3 \<and>
   destroy (t1_tablet\<lparr>timestamps := None, value_matrix := None\<rparr>) [None, None, None, None] = None"
proof -
  have d: "destroy t1_tablet t1_heap =
     Some (t1_tablet\<lparr>timestamps := None, value_matrix := None\<rparr>, [None, None, None, None])"
    by (simp add: destroy_def heap_free_def heap_load_def t1_tablet_def t1_heap_def t1_schema_def)
  note e = destroy_leaves_bitmaps [of t1_tablet t1_heap, THEN conjunct2, THEN spec, THEN spec,
      THEN mp, OF d]
  have b: "bitmaps t1_tablet = Some 3" by (simp add: t1_tablet_def)
  from e have "bitmaps (t1_tablet\<lparr>timestamps := None, value_matrix := None\<rparr>) = bitmaps t1_tablet"
    by blast
  moreover from e b
  have "destroy (t1_tablet\<lparr>timestamps := None, value_matrix := None\<rparr>) [None, None, None, None] = None"
    by blast
  ultimately show ?thesis using d b initialized_t1 by simp
qed

text \<open>
  C10. \<^verbatim>\<open>init\<close> on a schema with a name that occurs twice, and the name form of
  \<^verbatim>\<open>add_value\<close> with a name that is not in the schema, return the same code,
  \<open>E_INVALID_ARG\<close>.
\<close>

theorem duplicate_and_unknown_name_same_code:
  assumes "schema_map t0 = Mapping.empty"
    and "\<not> distinct (map measurement_name (schema_vec t0))"
    and "initialized t h"
    and "name \<notin> set (map measurement_name (schema_vec t))"
  shows "map_option fst (init t0 h0) = Some E_INVALID_ARG \<and>
         map_option fst (add_value_by_name t h row_index name v) = Some E_INVALID_ARG"
proof -
  from init_dup_code [OF init_not_distinct [OF assms(1,2)], of h0]
  have "map_option fst (init t0 h0) = Some E_INVALID_ARG" .
  moreover from assms(3) have "insert_names (schema_vec t) 0 Mapping.empty = (True, schema_map t)"
    by (simp add: initialized_def)
  from add_value_by_name_unknown [OF name_index_absent [OF this assms(4)], of h row_index v]
  have "map_option fst (add_value_by_name t h row_index name v) = Some E_INVALID_ARG" by simp
  ultimately show ?thesis by simp
qed

theorem duplicate_and_unknown_name_same_code_witness:
  "map_option fst (init (new_tablet dup_schema 2) []) = Some E_INVALID_ARG \<and>
   map_option fst (add_value_by_name t1_tablet t1_heap 0 ''t2'' (Int64 1)) = Some E_INVALID_ARG"
proof -
  have 1: "schema_map (new_tablet dup_schema 2) = Mapping.empty" by (simp add: new_tablet_def)
  have 2: "\<not> distinct (map measurement_name (schema_vec (new_tablet dup_schema 2)))"
    by (simp add: new_tablet_def dup_schema_def)
  have 3: "''t2'' \<notin> set (map measurement_name (schema_vec t1_tablet))"
    by (simp add: t1_tablet_def t1_schema_def)
  from duplicate_and_unknown_name_same_code [OF 1 2 initialized_t1 3] show ?thesis .
qed

end
